theory Spec2Isabelle
  imports Main "HOL-Library.AList"
begin

unbundle bit_operations_syntax

section \<open>Signals, pins and wires (circuit\_model.py)\<close>

text \<open>
  The Python program is an object graph: a \<open>Circuit\<close> holds \<open>Component\<close> and \<open>Wire\<close>
  objects in two insertion-ordered dictionaries, a component holds its \<open>Pin\<close> objects in a
  dictionary keyed by pin name, a wire holds references to its two pins, and a pin holds the
  list of wires attached to it. The same pin object is reachable from its component and from
  every wire, so the model keeps an explicit store: three heaps of objects addressed by
  natural numbers. A reference is an address; mutation of an object is an update of its heap.
  Layout data (\<open>position\<close>, \<open>points\<close>, \<open>selected\<close>, the free-form \<open>properties\<close> bag) is not
  read by any operation modelled here and is left out.
\<close>

datatype SignalState = LOW | HIGH | UNKNOWN | HIGHZ

record Signal =
  state :: SignalState
  bit_width :: int
  sig_value :: int

text \<open>\<open>Signal()\<close> and \<open>Signal(SignalState.UNKNOWN)\<close>: the dataclass defaults.\<close>

definition Signal_default :: Signal where
  "Signal_default = \<lparr>state = UNKNOWN, bit_width = 1, sig_value = 0\<rparr>"

definition from_bool :: "bool \<Rightarrow> Signal" where
  "from_bool v = \<lparr>state = (if v then HIGH else LOW), bit_width = 1,
                   sig_value = (if v then 1 else 0)\<rparr>"

datatype PinType = INPUT | OUTPUT | INOUT

record Pin =
  name :: string
  pin_type :: PinType
  signal :: Signal
  pin_bit_width :: int
  connected_wires :: "nat list"

record Wire =
  wire_id :: string
  start_pin :: nat
  end_pin :: nat
  wire_signal :: Signal

text \<open>
  A component: its \<open>id\<close>, its \<open>label\<close>, the dictionary of its pins (pin name to pin object, in
  insertion order) and the class of the object together with the attributes that class adds.
\<close>

datatype Kind =
    ANDGate int | ORGate int | NOTGate int | XORGate int
  | NANDGate int | NORGate int | XNORGate int | BufferGate int
  | Switch bool | Button bool | LED bool | InputPin bool | OutputPin bool
  | Clock bool int int
  | DFlipFlop bool bool | JKFlipFlop bool bool | SRLatch bool | Register int int bool
  | Multiplexer int int | Decoder int int | HalfAdder | FullAdder | Comparator int

record Component =
  comp_id :: string
  label :: string
  pins :: "(string \<times> nat) list"
  kind :: Kind

record Circuit =
  circuit_name :: string
  components :: "(string \<times> nat) list"
  wires :: "(string \<times> nat) list"
  next_component_id :: nat
  next_wire_id :: nat

text \<open>What the engine prints: the two \<open>print\<close> calls of \<open>_evaluate_circuit\<close>.\<close>

datatype Printed = ConvergenceWarning int | EvaluationError string

record World =
  comp_heap :: "nat \<Rightarrow> Component"
  pin_heap :: "nat \<Rightarrow> Pin"
  wire_heap :: "nat \<Rightarrow> Wire"
  comp_next :: nat
  pin_next :: nat
  wire_next :: nat
  circuit :: Circuit
  printed :: "Printed list"

definition set_pin_signal :: "nat \<Rightarrow> Signal \<Rightarrow> World \<Rightarrow> World" where
  "set_pin_signal p sg s = s\<lparr>pin_heap := (pin_heap s)(p := (pin_heap s p)\<lparr>signal := sg\<rparr>)\<rparr>"

definition set_wire_signal :: "nat \<Rightarrow> Signal \<Rightarrow> World \<Rightarrow> World" where
  "set_wire_signal w sg s =
     s\<lparr>wire_heap := (wire_heap s)(w := (wire_heap s w)\<lparr>wire_signal := sg\<rparr>)\<rparr>"

text \<open>
  \<open>Wire.propagate\<close>: an \<open>if\<close>/\<open>elif\<close> on the types of the two endpoints, the start pin first.
  The wire caches the source's signal, then the other pin receives the cached signal.
\<close>

definition propagate :: "nat \<Rightarrow> World \<Rightarrow> World" where
  "propagate w s =
     (let sp = start_pin (wire_heap s w); ep = end_pin (wire_heap s w) in
      if pin_type (pin_heap s sp) = OUTPUT then
        (let s1 = set_wire_signal w (signal (pin_heap s sp)) s
         in set_pin_signal ep (wire_signal (wire_heap s1 w)) s1)
      else if pin_type (pin_heap s ep) = OUTPUT then
        (let s1 = set_wire_signal w (signal (pin_heap s ep)) s
         in set_pin_signal sp (wire_signal (wire_heap s1 w)) s1)
      else s)"

subsection \<open>A wire between two output pins\<close>

text \<open>
  Two pins typed OUTPUT, the first HIGH and the second LOW, joined by wire 0 from the
  first to the second.
\<close>

definition out_pin :: "bool \<Rightarrow> Pin" where
  "out_pin v = \<lparr>name = ''out'', pin_type = OUTPUT, signal = from_bool v,
                pin_bit_width = 1, connected_wires = [0]\<rparr>"

definition empty_circuit :: Circuit where
  "empty_circuit = \<lparr>circuit_name = ''Untitled'', components = [], wires = [],
                     next_component_id = 0, next_wire_id = 0\<rparr>"

definition two_outputs :: World where
  "two_outputs =
     \<lparr>comp_heap = (\<lambda>_. \<lparr>comp_id = [], label = [], pins = [], kind = HalfAdder\<rparr>),
      pin_heap = (\<lambda>p. out_pin (p = 0)),
      wire_heap = (\<lambda>_. \<lparr>wire_id = ''w'', start_pin = 0, end_pin = 1,
                          wire_signal = Signal_default\<rparr>),
      comp_next = 0, pin_next = 2, wire_next = 1,
      circuit = empty_circuit\<lparr>wires := [(''w'', 0)]\<rparr>, printed = []\<rparr>"

section \<open>Circuit mutation (class Circuit)\<close>

text \<open>Decimal formatting of a counter, as the f-strings \<open>f"comp_{n}"\<close> and \<open>f"in{i}"\<close> do.\<close>

definition digit_char :: "nat \<Rightarrow> char" where
  "digit_char d = ''0123456789'' ! d"

function str_nat :: "nat \<Rightarrow> string" where
  "str_nat n = (if n < 10 then [digit_char n] else str_nat (n div 10) @ [digit_char (n mod 10)])"
  by pat_completeness auto
termination
  by (relation "measure id") auto

declare str_nat.simps [simp del]

text \<open>
  \<open>Pin\<close> and \<open>Wire\<close> are dataclasses, so \<open>==\<close> between two distinct objects is the generated
  field-by-field comparison; it runs through \<open>connected_wires\<close>, \<open>start_pin\<close> and \<open>end_pin\<close>
  and so through the whole object graph. The membership tests \<open>x in xs\<close> and \<open>xs.remove(x)\<close>
  accept an element that is the same object or compares equal. What the comparison answers
  on two distinct objects is a parameter of the model: every result below holds for each
  possible answer.
\<close>

record PyEq =
  pin_eq :: "World \<Rightarrow> nat \<Rightarrow> nat \<Rightarrow> bool"
  wire_eq :: "World \<Rightarrow> nat \<Rightarrow> nat \<Rightarrow> bool"

definition add_component :: "nat \<Rightarrow> World \<Rightarrow> World" where
  "add_component c s =
     (let s1 = (if comp_id (comp_heap s c) = [] then
                  s\<lparr>comp_heap := (comp_heap s)
                       (c := (comp_heap s c)
                          \<lparr>comp_id := ''comp_'' @ str_nat (next_component_id (circuit s))\<rparr>),
                    circuit := (circuit s)
                       \<lparr>next_component_id := next_component_id (circuit s) + 1\<rparr>\<rparr>
                else s)
      in s1\<lparr>circuit := (circuit s1)
              \<lparr>components := AList.update (comp_id (comp_heap s1 c)) c
                                (components (circuit s1))\<rparr>\<rparr>)"

definition attach :: "nat \<Rightarrow> nat \<Rightarrow> World \<Rightarrow> World" where
  "attach w p s =
     s\<lparr>pin_heap := (pin_heap s)
          (p := (pin_heap s p)\<lparr>connected_wires := connected_wires (pin_heap s p) @ [w]\<rparr>)\<rparr>"

definition add_wire :: "nat \<Rightarrow> World \<Rightarrow> World" where
  "add_wire w s =
     (let s1 = (if wire_id (wire_heap s w) = [] then
                  s\<lparr>wire_heap := (wire_heap s)
                       (w := (wire_heap s w)
                          \<lparr>wire_id := ''wire_'' @ str_nat (next_wire_id (circuit s))\<rparr>),
                    circuit := (circuit s)\<lparr>next_wire_id := next_wire_id (circuit s) + 1\<rparr>\<rparr>
                else s);
          s2 = s1\<lparr>circuit := (circuit s1)
                    \<lparr>wires := AList.update (wire_id (wire_heap s1 w)) w (wires (circuit s1))\<rparr>\<rparr>;
          s3 = attach w (start_pin (wire_heap s2 w)) s2
      in attach w (end_pin (wire_heap s3 w)) s3)"

fun remove_first :: "('a \<Rightarrow> bool) \<Rightarrow> 'a list \<Rightarrow> 'a list" where
  "remove_first P [] = []"
| "remove_first P (x # xs) = (if P x then xs else x # remove_first P xs)"

definition detach :: "PyEq \<Rightarrow> nat \<Rightarrow> nat \<Rightarrow> World \<Rightarrow> World" where
  "detach E w p s =
     s\<lparr>pin_heap := (pin_heap s)
          (p := (pin_heap s p)
             \<lparr>connected_wires :=
                remove_first (\<lambda>e. e = w \<or> wire_eq E s e w) (connected_wires (pin_heap s p))\<rparr>)\<rparr>"

definition remove_wire :: "PyEq \<Rightarrow> string \<Rightarrow> World \<Rightarrow> World" where
  "remove_wire E wid s =
     (case map_of (wires (circuit s)) wid of
        None \<Rightarrow> s
      | Some w \<Rightarrow>
          (let s1 = detach E w (start_pin (wire_heap s w)) s;
               s2 = detach E w (end_pin (wire_heap s1 w)) s1
           in s2\<lparr>circuit := (circuit s2)\<lparr>wires := AList.delete wid (wires (circuit s2))\<rparr>\<rparr>))"

definition pin_in :: "PyEq \<Rightarrow> World \<Rightarrow> nat \<Rightarrow> nat list \<Rightarrow> bool" where
  "pin_in E s p qs = list_ex (\<lambda>q. q = p \<or> pin_eq E s q p) qs"

definition wires_to_remove :: "PyEq \<Rightarrow> World \<Rightarrow> nat \<Rightarrow> string list" where
  "wires_to_remove E s c =
     map fst (filter (\<lambda>(wid, w).
                pin_in E s (start_pin (wire_heap s w)) (map snd (pins (comp_heap s c)))
              \<or> pin_in E s (end_pin (wire_heap s w)) (map snd (pins (comp_heap s c))))
            (wires (circuit s)))"

definition remove_component :: "PyEq \<Rightarrow> string \<Rightarrow> World \<Rightarrow> World" where
  "remove_component E cid s =
     (case map_of (components (circuit s)) cid of
        None \<Rightarrow> s
      | Some c \<Rightarrow>
          (let s1 = fold (remove_wire E) (wires_to_remove E s c) s
           in s1\<lparr>circuit := (circuit s1)
                   \<lparr>components := AList.delete cid (components (circuit s1))\<rparr>\<rparr>))"

definition clear :: "World \<Rightarrow> World" where
  "clear s = s\<lparr>circuit := (circuit s)\<lparr>components := [], wires := [],
                                      next_component_id := 0, next_wire_id := 0\<rparr>\<rparr>"

text \<open>
  The invariant of the data model: each endpoint of each wire of the circuit is a pin of a
  component that the circuit holds. \<open>dicts_ok\<close> says that the two association lists are
  dictionaries (no key twice), which every Python \<open>dict\<close> is.
\<close>

definition circuit_pins :: "World \<Rightarrow> nat list" where
  "circuit_pins s =
     concat (map (\<lambda>(cid, c). map snd (pins (comp_heap s c))) (components (circuit s)))"

definition wires_attached :: "World \<Rightarrow> bool" where
  "wires_attached s =
     list_all (\<lambda>(wid, w). start_pin (wire_heap s w) \<in> set (circuit_pins s)
                        \<and> end_pin (wire_heap s w) \<in> set (circuit_pins s))
       (wires (circuit s))"

definition dicts_ok :: "World \<Rightarrow> bool" where
  "dicts_ok s = (distinct (map fst (components (circuit s)))
               \<and> distinct (map fst (wires (circuit s))))"

subsection \<open>Constructors\<close>

text \<open>
  \<open>Component.__init__\<close>, \<open>add_pin\<close> and the \<open>_setup_pins\<close> of each class: a new component
  object and one new pin object for each pin of its class, every pin with the dataclass
  defaults (signal UNKNOWN, width 1, no wire attached).
\<close>

definition new_pin :: "string \<Rightarrow> PinType \<Rightarrow> World \<Rightarrow> nat \<times> World" where
  "new_pin nm ty s =
     (pin_next s,
      s\<lparr>pin_heap := (pin_heap s)
           (pin_next s := \<lparr>name = nm, pin_type = ty, signal = Signal_default,
                            pin_bit_width = 1, connected_wires = []\<rparr>),
        pin_next := pin_next s + 1\<rparr>)"

definition add_pin :: "nat \<Rightarrow> nat \<Rightarrow> World \<Rightarrow> World" where
  "add_pin c p s =
     s\<lparr>comp_heap := (comp_heap s)
          (c := (comp_heap s c)
             \<lparr>pins := AList.update (name (pin_heap s p)) p (pins (comp_heap s c))\<rparr>)\<rparr>"

definition new_component :: "string \<Rightarrow> string \<Rightarrow> Kind \<Rightarrow> World \<Rightarrow> nat \<times> World" where
  "new_component cid lbl k s =
     (comp_next s,
      s\<lparr>comp_heap := (comp_heap s)
           (comp_next s := \<lparr>comp_id = cid, label = lbl, pins = [], kind = k\<rparr>),
        comp_next := comp_next s + 1\<rparr>)"

fun setup_pins :: "nat \<Rightarrow> (string \<times> PinType) list \<Rightarrow> World \<Rightarrow> World" where
  "setup_pins c [] s = s"
| "setup_pins c ((nm, ty) # r) s =
     (case new_pin nm ty s of (p, s1) \<Rightarrow> setup_pins c r (add_pin c p s1))"

definition numbered :: "string \<Rightarrow> int \<Rightarrow> PinType \<Rightarrow> (string \<times> PinType) list" where
  "numbered pre n ty = map (\<lambda>i. (pre @ str_nat i, ty)) [0..<nat n]"

fun pin_layout :: "Kind \<Rightarrow> (string \<times> PinType) list" where
  "pin_layout (ANDGate n) = numbered ''in'' n INPUT @ [(''out'', OUTPUT)]"
| "pin_layout (ORGate n) = numbered ''in'' n INPUT @ [(''out'', OUTPUT)]"
| "pin_layout (NOTGate n) = numbered ''in'' n INPUT @ [(''out'', OUTPUT)]"
| "pin_layout (XORGate n) = numbered ''in'' n INPUT @ [(''out'', OUTPUT)]"
| "pin_layout (NANDGate n) = numbered ''in'' n INPUT @ [(''out'', OUTPUT)]"
| "pin_layout (NORGate n) = numbered ''in'' n INPUT @ [(''out'', OUTPUT)]"
| "pin_layout (XNORGate n) = numbered ''in'' n INPUT @ [(''out'', OUTPUT)]"
| "pin_layout (BufferGate n) = numbered ''in'' n INPUT @ [(''out'', OUTPUT)]"
| "pin_layout (Switch _) = [(''out'', OUTPUT)]"
| "pin_layout (Button _) = [(''out'', OUTPUT)]"
| "pin_layout (LED _) = [(''in'', INPUT)]"
| "pin_layout (InputPin _) = [(''out'', OUTPUT)]"
| "pin_layout (OutputPin _) = [(''in'', INPUT)]"
| "pin_layout (Clock _ _ _) = [(''out'', OUTPUT)]"
| "pin_layout (DFlipFlop _ _) =
     [(''D'', INPUT), (''CLK'', INPUT), (''Q'', OUTPUT), (''Q'' @ [CHR 0x27], OUTPUT)]"
| "pin_layout (JKFlipFlop _ _) =
     [(''J'', INPUT), (''K'', INPUT), (''CLK'', INPUT), (''Q'', OUTPUT),
      (''Q'' @ [CHR 0x27], OUTPUT)]"
| "pin_layout (SRLatch _) =
     [(''S'', INPUT), (''R'', INPUT), (''Q'', OUTPUT), (''Q'' @ [CHR 0x27], OUTPUT)]"
| "pin_layout (Register bw _ _) =
     numbered ''D'' bw INPUT @ [(''CLK'', INPUT)] @ numbered ''Q'' bw OUTPUT"
| "pin_layout (Multiplexer n ns) =
     numbered ''D'' n INPUT @ numbered ''S'' ns INPUT @ [(''OUT'', OUTPUT)]"
| "pin_layout (Decoder n no) = numbered ''I'' n INPUT @ numbered ''O'' no OUTPUT"
| "pin_layout HalfAdder =
     [(''A'', INPUT), (''B'', INPUT), (''SUM'', OUTPUT), (''CARRY'', OUTPUT)]"
| "pin_layout FullAdder =
     [(''A'', INPUT), (''B'', INPUT), (''CIN'', INPUT), (''SUM'', OUTPUT), (''COUT'', OUTPUT)]"
| "pin_layout (Comparator bw) =
     numbered ''A'' bw INPUT @ numbered ''B'' bw INPUT
     @ [(''EQ'', OUTPUT), (''GT'', OUTPUT), (''LT'', OUTPUT)]"

definition construct :: "string \<Rightarrow> string \<Rightarrow> Kind \<Rightarrow> World \<Rightarrow> nat \<times> World" where
  "construct cid lbl k s =
     (case new_component cid lbl k s of (c, s1) \<Rightarrow> (c, setup_pins c (pin_layout k) s1))"

definition new_wire :: "string \<Rightarrow> nat \<Rightarrow> nat \<Rightarrow> World \<Rightarrow> nat \<times> World" where
  "new_wire wid sp ep s =
     (wire_next s,
      s\<lparr>wire_heap := (wire_heap s)
           (wire_next s := \<lparr>wire_id = wid, start_pin = sp, end_pin = ep,
                             wire_signal = Signal_default\<rparr>),
        wire_next := wire_next s + 1\<rparr>)"

definition World0 :: World where
  "World0 =
     \<lparr>comp_heap = (\<lambda>_. \<lparr>comp_id = [], label = [], pins = [], kind = HalfAdder\<rparr>),
      pin_heap = (\<lambda>_. \<lparr>name = [], pin_type = INOUT, signal = Signal_default,
                        pin_bit_width = 1, connected_wires = []\<rparr>),
      wire_heap = (\<lambda>_. \<lparr>wire_id = [], start_pin = 0, end_pin = 0,
                          wire_signal = Signal_default\<rparr>),
      comp_next = 0, pin_next = 0, wire_next = 0,
      circuit = empty_circuit, printed = []\<rparr>"

definition get_pin :: "World \<Rightarrow> nat \<Rightarrow> string \<Rightarrow> nat option" where
  "get_pin s c nm = map_of (pins (comp_heap s c)) nm"

text \<open>A switch and an LED, constructed but not yet in the circuit, and a wire object between them.\<close>

definition loose_parts :: World where
  "loose_parts =
     (case construct ''s1'' ''A'' (Switch False) World0 of (sw, s1) \<Rightarrow>
      case construct ''led1'' ''Output'' (LED False) s1 of (led, s2) \<Rightarrow>
      case new_wire ''w1'' (the (get_pin s2 sw ''out'')) (the (get_pin s2 led ''in'')) s2 of
        (w, s3) \<Rightarrow> s3)"

definition switch_led :: World where
  "switch_led = add_wire 0 (add_component 1 (add_component 0 loose_parts))"

definition E0 :: PyEq where
  "E0 = \<lparr>pin_eq = (\<lambda>_ _ _. False), wire_eq = (\<lambda>_ _ _. False)\<rparr>"

lemmas build_defs = construct_def new_component_def new_pin_def add_pin_def new_wire_def
  World0_def empty_circuit_def get_pin_def Signal_default_def

text \<open>
  The dictionary key that \<open>add_component\<close> (\<open>add_wire\<close>) stores the object under: its own id
  when it has one, the next generated id otherwise.
\<close>

definition inserted_id :: "World \<Rightarrow> nat \<Rightarrow> string" where
  "inserted_id s c =
     (if comp_id (comp_heap s c) = [] then ''comp_'' @ str_nat (next_component_id (circuit s))
      else comp_id (comp_heap s c))"

definition inserted_wire_id :: "World \<Rightarrow> nat \<Rightarrow> string" where
  "inserted_wire_id s w =
     (if wire_id (wire_heap s w) = [] then ''wire_'' @ str_nat (next_wire_id (circuit s))
      else wire_id (wire_heap s w))"

section \<open>Component behaviour (components/*.py)\<close>

text \<open>
  \<open>evaluate()\<close> reads pins through \<open>get_pin\<close>, which answers \<open>None\<close> for a name the component
  does not have; using that answer raises \<open>AttributeError\<close>. An evaluation therefore either
  completes (\<open>Inr\<close>) or raises (\<open>Inl\<close>), in both cases leaving the store as it was written up
  to that point.
\<close>

definition need :: "'a option \<Rightarrow> World \<Rightarrow> ('a \<Rightarrow> World + World) \<Rightarrow> World + World" where
  "need v s f = (case v of None \<Rightarrow> Inl s | Some x \<Rightarrow> f x)"

definition andthen :: "World + World \<Rightarrow> (World \<Rightarrow> World + World) \<Rightarrow> World + World" where
  "andthen r f = (case r of Inl s \<Rightarrow> Inl s | Inr s \<Rightarrow> f s)"

definition is_high :: "World \<Rightarrow> nat \<Rightarrow> string \<Rightarrow> bool option" where
  "is_high s c nm = map_option (\<lambda>p. state (signal (pin_heap s p)) = HIGH) (get_pin s c nm)"

definition drive :: "nat \<Rightarrow> string \<Rightarrow> bool \<Rightarrow> World \<Rightarrow> World + World" where
  "drive c nm b s = need (get_pin s c nm) s (\<lambda>p. Inr (set_pin_signal p (from_bool b) s))"

definition set_kind :: "nat \<Rightarrow> Kind \<Rightarrow> World \<Rightarrow> World" where
  "set_kind c k s = s\<lparr>comp_heap := (comp_heap s)(c := (comp_heap s c)\<lparr>kind := k\<rparr>)\<rparr>"

text \<open>\<open>range(n)\<close> for a Python integer \<open>n\<close>: empty when \<open>n\<close> is not positive.\<close>

definition py_range :: "int \<Rightarrow> nat list" where
  "py_range n = [0..<nat n]"

text \<open>\<open>BaseGate.get_input_values\<close>: a missing input pin reads as \<open>False\<close>.\<close>

definition get_input_values :: "World \<Rightarrow> nat \<Rightarrow> int \<Rightarrow> bool list" where
  "get_input_values s c n =
     map (\<lambda>i. case get_pin s c (''in'' @ str_nat i) of
                 None \<Rightarrow> False
               | Some p \<Rightarrow> state (signal (pin_heap s p)) = HIGH) (py_range n)"

definition true_count :: "bool list \<Rightarrow> nat" where
  "true_count bs = length (filter id bs)"

text \<open>
  The loops that read a group of numbered pins into an integer, least significant bit
  first. The result carries what was accumulated and whether every pin was there.
\<close>

fun read_bits :: "World \<Rightarrow> nat \<Rightarrow> string \<Rightarrow> nat list \<Rightarrow> int \<Rightarrow> int \<times> bool" where
  "read_bits s c pre [] acc = (acc, True)"
| "read_bits s c pre (i # is) acc =
     (case is_high s c (pre @ str_nat i) of
        None \<Rightarrow> (acc, False)
      | Some h \<Rightarrow> read_bits s c pre is (if h then acc OR push_bit i 1 else acc))"

fun drive_all :: "nat \<Rightarrow> string \<Rightarrow> (nat \<Rightarrow> bool) \<Rightarrow> nat list \<Rightarrow> World \<Rightarrow> World + World" where
  "drive_all c pre f [] s = Inr s"
| "drive_all c pre f (i # is) s = andthen (drive c (pre @ str_nat i) (f i) s) (drive_all c pre f is)"

definition drive_Q :: "nat \<Rightarrow> bool \<Rightarrow> World \<Rightarrow> World + World" where
  "drive_Q c st s = andthen (drive c ''Q'' st s) (drive c (''Q'' @ [CHR 0x27]) (\<not> st))"

fun evaluate_kind :: "Kind \<Rightarrow> nat \<Rightarrow> World \<Rightarrow> World + World" where
  "evaluate_kind (ANDGate n) c s =
     (let inputs = get_input_values s c n
      in drive c ''out'' (if inputs \<noteq> [] then list_all id inputs else False) s)"
| "evaluate_kind (ORGate n) c s =
     (let inputs = get_input_values s c n
      in drive c ''out'' (if inputs \<noteq> [] then list_ex id inputs else False) s)"
| "evaluate_kind (NOTGate n) c s =
     (let inputs = get_input_values s c n
      in drive c ''out'' (if inputs \<noteq> [] then \<not> hd inputs else True) s)"
| "evaluate_kind (XORGate n) c s =
     (let inputs = get_input_values s c n
      in drive c ''out'' (if inputs \<noteq> [] then true_count inputs mod 2 = 1 else False) s)"
| "evaluate_kind (NANDGate n) c s =
     (let inputs = get_input_values s c n
      in drive c ''out'' (if inputs \<noteq> [] then \<not> list_all id inputs else True) s)"
| "evaluate_kind (NORGate n) c s =
     (let inputs = get_input_values s c n
      in drive c ''out'' (if inputs \<noteq> [] then \<not> list_ex id inputs else True) s)"
| "evaluate_kind (XNORGate n) c s =
     (let inputs = get_input_values s c n
      in drive c ''out'' (if inputs \<noteq> [] then true_count inputs mod 2 = 0 else True) s)"
| "evaluate_kind (BufferGate n) c s =
     (let inputs = get_input_values s c n
      in drive c ''out'' (if inputs \<noteq> [] then hd inputs else False) s)"
| "evaluate_kind (Switch st) c s = drive c ''out'' st s"
| "evaluate_kind (Button pressed) c s = drive c ''out'' pressed s"
| "evaluate_kind (LED lit) c s =
     need (is_high s c ''in'') s (\<lambda>h. Inr (set_kind c (LED h) s))"
| "evaluate_kind (InputPin v) c s = drive c ''out'' v s"
| "evaluate_kind (OutputPin v) c s =
     need (is_high s c ''in'') s (\<lambda>h. Inr (set_kind c (OutputPin h) s))"
| "evaluate_kind (Clock st tc fr) c s =
     (if tc + 1 \<ge> fr
      then drive c ''out'' (\<not> st) (set_kind c (Clock (\<not> st) 0 fr) s)
      else drive c ''out'' st (set_kind c (Clock st (tc + 1) fr) s))"
| "evaluate_kind (DFlipFlop st lc) c s =
     need (is_high s c ''CLK'') s (\<lambda>clock.
       let s1 = set_kind c (DFlipFlop st clock) s in
       if \<not> lc \<and> clock
       then need (is_high s1 c ''D'') s1 (\<lambda>d. drive_Q c d (set_kind c (DFlipFlop d clock) s1))
       else drive_Q c st s1)"
| "evaluate_kind (JKFlipFlop st lc) c s =
     need (is_high s c ''J'') s (\<lambda>j.
     need (is_high s c ''K'') s (\<lambda>k.
     need (is_high s c ''CLK'') s (\<lambda>clock.
       let st' = (if \<not> lc \<and> clock
                  then (if j \<and> k then \<not> st else if j then True else if k then False else st)
                  else st)
       in drive_Q c st' (set_kind c (JKFlipFlop st' clock) s))))"
| "evaluate_kind (SRLatch st) c s =
     need (is_high s c ''S'') s (\<lambda>sv.
     need (is_high s c ''R'') s (\<lambda>rv.
       let st' = (if sv \<and> \<not> rv then True else if rv \<and> \<not> sv then False else st)
       in drive_Q c st' (set_kind c (SRLatch st') s)))"
| "evaluate_kind (Register bw v lc) c s =
     need (is_high s c ''CLK'') s (\<lambda>clock.
       if \<not> lc \<and> clock
       then (case read_bits s c ''D'' (py_range bw) 0 of
               (v', ok) \<Rightarrow>
                 if ok
                 then drive_all c ''Q'' (\<lambda>i. drop_bit i v' AND 1 \<noteq> 0) (py_range bw)
                        (set_kind c (Register bw v' clock) s)
                 else Inl (set_kind c (Register bw v' clock) s))
       else drive_all c ''Q'' (\<lambda>i. drop_bit i v AND 1 \<noteq> 0) (py_range bw)
              (set_kind c (Register bw v clock) s))"
| "evaluate_kind (Multiplexer n ns) c s =
     (case read_bits s c ''S'' (py_range ns) 0 of
        (sel, ok) \<Rightarrow>
          if \<not> ok then Inl s
          else if sel < n
          then need (get_pin s c ''OUT'') s (\<lambda>out.
               need (get_pin s c (''D'' @ str_nat (nat sel))) s (\<lambda>d.
                 Inr (set_pin_signal out (signal (pin_heap s d)) s)))
          else drive c ''OUT'' False s)"
| "evaluate_kind (Decoder n no) c s =
     (case read_bits s c ''I'' (py_range n) 0 of
        (v, ok) \<Rightarrow>
          if \<not> ok then Inl s
          else drive_all c ''O'' (\<lambda>i. int i = v) (py_range no) s)"
| "evaluate_kind HalfAdder c s =
     need (is_high s c ''A'') s (\<lambda>a.
     need (is_high s c ''B'') s (\<lambda>b.
       andthen (drive c ''SUM'' (a \<noteq> b) s) (drive c ''CARRY'' (a \<and> b))))"
| "evaluate_kind FullAdder c s =
     need (is_high s c ''A'') s (\<lambda>a.
     need (is_high s c ''B'') s (\<lambda>b.
     need (is_high s c ''CIN'') s (\<lambda>cin.
       andthen (drive c ''SUM'' ((a \<noteq> b) \<noteq> cin) s)
         (drive c ''COUT'' ((a \<and> b) \<or> (cin \<and> (a \<noteq> b)))))))"
| "evaluate_kind (Comparator bw) c s =
     (case read_bits s c ''A'' (py_range bw) 0 of
        (a, oka) \<Rightarrow>
          if \<not> oka then Inl s
          else (case read_bits s c ''B'' (py_range bw) 0 of
                  (b, okb) \<Rightarrow>
                    if \<not> okb then Inl s
                    else andthen (drive c ''EQ'' (a = b) s) (\<lambda>s1.
                         andthen (drive c ''GT'' (a > b) s1) (drive c ''LT'' (a < b)))))"

definition evaluate :: "nat \<Rightarrow> World \<Rightarrow> World + World" where
  "evaluate c s = evaluate_kind (kind (comp_heap s c)) c s"


text \<open>The methods of \<open>Switch\<close> that change its state and re-evaluate at once.\<close>

definition set_state :: "nat \<Rightarrow> bool \<Rightarrow> World \<Rightarrow> World + World" where
  "set_state c b s =
     (case kind (comp_heap s c) of
        Switch _ \<Rightarrow> evaluate c (set_kind c (Switch b) s)
      | _ \<Rightarrow> Inl s)"

definition toggle :: "nat \<Rightarrow> World \<Rightarrow> World + World" where
  "toggle c s =
     (case kind (comp_heap s c) of
        Switch st \<Rightarrow> evaluate c (set_kind c (Switch (\<not> st)) s)
      | _ \<Rightarrow> Inl s)"

section \<open>The simulation engine (simulation\_engine.py)\<close>

record SimulationEngine =
  running :: bool
  tick_count :: int
  propagation_queue :: "nat list"
  evaluated_components :: "string set"

definition SimulationEngine_init :: SimulationEngine where
  "SimulationEngine_init =
     \<lparr>running = False, tick_count = 0, propagation_queue = [], evaluated_components = {}\<rparr>"

definition propagate_signals :: "World \<Rightarrow> World" where
  "propagate_signals s = fold propagate (map snd (wires (circuit s))) s"

definition get_output_pins :: "World \<Rightarrow> nat \<Rightarrow> nat list" where
  "get_output_pins s c =
     filter (\<lambda>p. pin_type (pin_heap s p) = OUTPUT) (map snd (pins (comp_heap s c)))"

text \<open>
  The dictionary \<open>old_outputs\<close>, filled by one assignment per output pin under the pin's
  name (a later assignment to the same name wins), and the comparison loop after the
  evaluation.
\<close>

definition old_outputs :: "World \<Rightarrow> nat \<Rightarrow> string \<Rightarrow> SignalState option" where
  "old_outputs s c =
     map_of (rev (map (\<lambda>p. (name (pin_heap s p), state (signal (pin_heap s p))))
                     (get_output_pins s c)))"

definition outputs_changed :: "(string \<Rightarrow> SignalState option) \<Rightarrow> World \<Rightarrow> nat \<Rightarrow> bool" where
  "outputs_changed old s c =
     list_ex (\<lambda>p. old (name (pin_heap s p)) \<noteq> Some (state (signal (pin_heap s p))))
       (get_output_pins s c)"

text \<open>
  The body of the \<open>for\<close> loop over the components: the \<open>try\<close> block, and the \<open>except\<close> branch
  that prints and goes on, leaving \<open>changed\<close> as it was.
\<close>

definition evaluate_component :: "nat \<Rightarrow> World \<times> bool \<Rightarrow> World \<times> bool" where
  "evaluate_component c sc =
     (case sc of (s, changed) \<Rightarrow>
        (let old = old_outputs s c in
         case evaluate c s of
           Inr s' \<Rightarrow> (s', changed \<or> outputs_changed old s' c)
         | Inl s' \<Rightarrow>
             (s'\<lparr>printed := printed s' @ [EvaluationError (comp_id (comp_heap s' c))]\<rparr>,
              changed)))"

definition evaluation_pass :: "World \<Rightarrow> World \<times> bool" where
  "evaluation_pass s = fold evaluate_component (map snd (components (circuit s))) (s, False)"

text \<open>
  The \<open>while iteration < max_iterations\<close> loop; it returns the store and the final value of
  \<open>iteration\<close>. \<open>max_iterations\<close> is the constant \<open>SIM_MAX_PROPAGATION_DEPTH\<close> of
  \<open>utils/constants.py\<close>, a parameter here.
\<close>

function evaluate_loop :: "int \<Rightarrow> int \<Rightarrow> World \<Rightarrow> World \<times> int" where
  "evaluate_loop max_iterations iteration s =
     (if iteration < max_iterations
      then (case evaluation_pass s of
              (s', changed) \<Rightarrow>
                if \<not> changed then (s', iteration + 1)
                else evaluate_loop max_iterations (iteration + 1) s')
      else (s, iteration))"
  by pat_completeness auto
termination
  by (relation "measure (\<lambda>(m, i, s). nat (m - i))") auto

declare evaluate_loop.simps [simp del]

definition evaluate_circuit :: "int \<Rightarrow> World \<Rightarrow> World" where
  "evaluate_circuit max_iterations s =
     (case evaluate_loop max_iterations 0 s of
        (s', iteration) \<Rightarrow>
          if iteration \<ge> max_iterations
          then s'\<lparr>printed := printed s' @ [ConvergenceWarning max_iterations]\<rparr>
          else s')"

definition step :: "int \<Rightarrow> SimulationEngine \<times> World \<Rightarrow> SimulationEngine \<times> World" where
  "step max_iterations es =
     (case es of (e, s) \<Rightarrow>
        (e\<lparr>tick_count := tick_count e + 1, evaluated_components := {}\<rparr>,
         propagate_signals (evaluate_circuit max_iterations (propagate_signals s))))"

definition reset_pins :: "World \<Rightarrow> World" where
  "reset_pins s =
     fold (\<lambda>c. fold (\<lambda>p. set_pin_signal p Signal_default) (map snd (pins (comp_heap s c))))
       (map snd (components (circuit s))) s"

definition reset_wires :: "World \<Rightarrow> World" where
  "reset_wires s =
     fold (\<lambda>w. set_wire_signal w Signal_default) (map snd (wires (circuit s))) s"

definition reset :: "SimulationEngine \<times> World \<Rightarrow> SimulationEngine \<times> World" where
  "reset es =
     (case es of (e, s) \<Rightarrow>
        (e\<lparr>tick_count := 0, propagation_queue := [], evaluated_components := {}\<rparr>,
         reset_wires (reset_pins s)))"

definition start :: "SimulationEngine \<times> World \<Rightarrow> SimulationEngine \<times> World" where
  "start es = (case es of (e, s) \<Rightarrow> reset (e\<lparr>running := True\<rparr>, s))"

text \<open>
  \<open>Wire(wid, c1.get_pin(n1), c2.get_pin(n2))\<close> followed by \<open>circuit.add_wire\<close> of the new
  wire object, whose address is \<open>wire_next\<close>.
\<close>

definition connect :: "string \<Rightarrow> nat \<Rightarrow> string \<Rightarrow> nat \<Rightarrow> string \<Rightarrow> World \<Rightarrow> World" where
  "connect wid c1 n1 c2 n2 s =
     add_wire (wire_next s)
       (snd (new_wire wid (the (get_pin s c1 n1)) (the (get_pin s c2 n2)) s))"

text \<open>The store an evaluation leaves, whether it completed or raised.\<close>

definition world_of :: "World + World \<Rightarrow> World" where
  "world_of r = (case r of Inr s \<Rightarrow> s | Inl s \<Rightarrow> s)"

text \<open>
  The circuit of \<open>test_basic_gates\<close>: two switches (objects 0 and 1) into an AND gate
  (object 2) into an LED (object 3), then both switches set on.
\<close>

definition and_parts :: World where
  "and_parts =
     snd (construct ''led1'' ''Output'' (LED False)
    (snd (construct ''and1'' ''AND'' (ANDGate 2)
    (snd (construct ''s2'' ''B'' (Switch False)
    (snd (construct ''s1'' ''A'' (Switch False) World0)))))))"

definition and_circuit :: World where
  "and_circuit =
     connect ''w3'' 2 ''out'' 3 ''in''
    (connect ''w2'' 1 ''out'' 2 ''in1''
    (connect ''w1'' 0 ''out'' 2 ''in0''
    (add_component 3 (add_component 2 (add_component 1 (add_component 0 and_parts))))))"

definition both_on :: World where
  "both_on = world_of (set_state 1 True (world_of (set_state 0 True and_circuit)))"



text \<open>The store after \<open>k\<close> evaluation passes, and whether pass number \<open>j + 1\<close> sets \<open>changed\<close>.\<close>

fun pass_n :: "nat \<Rightarrow> World \<Rightarrow> World" where
  "pass_n 0 s = s"
| "pass_n (Suc k) s = fst (evaluation_pass (pass_n k s))"

definition pass_changed :: "nat \<Rightarrow> World \<Rightarrow> bool" where
  "pass_changed j s = snd (evaluation_pass (pass_n j s))"

text \<open>
  What an evaluation of component \<open>c\<close> may write: the signals of the pins of \<open>c\<close> and the
  class attributes of \<open>c\<close>, nothing else.
\<close>

definition same_but :: "nat \<Rightarrow> World \<Rightarrow> World \<Rightarrow> bool" where
  "same_but c s s' \<longleftrightarrow>
     (\<forall>q. q \<notin> snd ` set (pins (comp_heap s c)) \<longrightarrow> pin_heap s' q = pin_heap s q)
   \<and> (\<forall>q. pin_heap s' q = (pin_heap s q)\<lparr>signal := signal (pin_heap s' q)\<rparr>)
   \<and> (\<forall>d. d \<noteq> c \<longrightarrow> comp_heap s' d = comp_heap s d)
   \<and> comp_heap s' c = (comp_heap s c)\<lparr>kind := kind (comp_heap s' c)\<rparr>
   \<and> wire_heap s' = wire_heap s \<and> circuit s' = circuit s"

text \<open>The same for an evaluation that may have raised.\<close>

definition ev_ok :: "nat \<Rightarrow> World \<Rightarrow> World + World \<Rightarrow> bool" where
  "ev_ok c s r = same_but c s (world_of r)"

text \<open>
  A clock with frequency 1 and a tick count that is not negative, in state \<open>st\<close>, with its
  pin \<open>out\<close>.
\<close>

definition clock_shape :: "World \<Rightarrow> nat \<Rightarrow> nat \<Rightarrow> bool \<Rightarrow> bool" where
  "clock_shape s c p st \<longleftrightarrow>
     (\<exists>tc. kind (comp_heap s c) = Clock st tc 1 \<and> 0 \<le> tc)
   \<and> get_pin s c ''out'' = Some p"

text \<open>
  Such a clock whose only pin is \<open>out\<close>, typed OUTPUT as the constructor makes it, and does
  not already hold the state that the next evaluation will drive.
\<close>

definition clock_free :: "World \<Rightarrow> nat \<Rightarrow> nat \<Rightarrow> bool \<Rightarrow> bool" where
  "clock_free s c p st \<longleftrightarrow>
     (\<exists>tc. kind (comp_heap s c) = Clock st tc 1 \<and> 0 \<le> tc)
   \<and> pins (comp_heap s c) = [(''out'', p)]
   \<and> pin_type (pin_heap s p) = OUTPUT
   \<and> state (signal (pin_heap s p)) \<noteq> state (from_bool (\<not> st))"

text \<open>
  Such a clock held once by the circuit, its output pin belonging to no other component of
  the circuit and being the end pin of no wire of the circuit that starts at a pin typed
  OUTPUT (the wires that a propagation copies towards their end).
\<close>

definition free_running :: "World \<Rightarrow> nat \<Rightarrow> nat \<Rightarrow> bool \<Rightarrow> bool" where
  "free_running s c p st \<longleftrightarrow>
     clock_free s c p st
   \<and> count_list (map snd (components (circuit s))) c = 1
   \<and> (\<forall>d \<in> snd ` set (components (circuit s)).
         d \<noteq> c \<longrightarrow> p \<notin> snd ` set (pins (comp_heap s d)))
   \<and> (\<forall>w \<in> snd ` set (wires (circuit s)).
         end_pin (wire_heap s w) = p
         \<longrightarrow> pin_type (pin_heap s (start_pin (wire_heap s w))) \<noteq> OUTPUT)"

text \<open>A clock (object 0) driving an LED (object 1), freshly built.\<close>

definition clock_led :: World where
  "clock_led =
     connect ''w1'' 0 ''out'' 1 ''in''
    (add_component 1 (add_component 0
    (snd (construct ''led1'' ''Output'' (LED False)
    (snd (construct ''clk'' ''Clock'' (Clock False 0 1) World0))))))"

text \<open>
  A switch (object 0) and a clock (object 1), with a wire from the switch's output pin to
  the clock's output pin, and the switch toggled on.
\<close>

definition clock_driven :: World where
  "clock_driven =
     world_of (toggle 0
    (connect ''w1'' 0 ''out'' 1 ''out''
    (add_component 1 (add_component 0
    (snd (construct ''clk'' ''Clock'' (Clock False 0 1)
    (snd (construct ''sw'' ''A'' (Switch False) World0))))))))"

section \<open>Strings\<close>

text \<open>
  A Python \<open>str\<close> is modelled by the bytes of its UTF-8 encoding. Substring search and
  replacement, prefix tests and splitting on an ASCII character give the same result on the
  bytes as on the code points, no encoding of a character being part of the encoding of
  another.
\<close>

definition startswith :: "string \<Rightarrow> string \<Rightarrow> bool" where
  "startswith s p \<longleftrightarrow> take (length p) s = p"

text \<open>
  The white space of \<open>str.isspace\<close>, which is also that of \<open>str.strip\<close>, \<open>str.split\<close> and of \<open>\s\<close>
  in a regular expression on \<open>str\<close>: the code points 9 to 13, 28 to 32, 0x85, 0xA0, 0x1680,
  0x2000 to 0x200A, 0x2028, 0x2029, 0x202F, 0x205F and 0x3000, each in UTF-8.
\<close>

definition spaces :: "string list" where
  "spaces =
     [[CHR 0x09], [CHR 0x0A], [CHR 0x0B], [CHR 0x0C], [CHR 0x0D],
      [CHR 0x1C], [CHR 0x1D], [CHR 0x1E], [CHR 0x1F], [CHR 0x20],
      [CHR 0xC2, CHR 0x85], [CHR 0xC2, CHR 0xA0], [CHR 0xE1, CHR 0x9A, CHR 0x80],
      [CHR 0xE2, CHR 0x80, CHR 0x80], [CHR 0xE2, CHR 0x80, CHR 0x81],
      [CHR 0xE2, CHR 0x80, CHR 0x82], [CHR 0xE2, CHR 0x80, CHR 0x83],
      [CHR 0xE2, CHR 0x80, CHR 0x84], [CHR 0xE2, CHR 0x80, CHR 0x85],
      [CHR 0xE2, CHR 0x80, CHR 0x86], [CHR 0xE2, CHR 0x80, CHR 0x87],
      [CHR 0xE2, CHR 0x80, CHR 0x88], [CHR 0xE2, CHR 0x80, CHR 0x89],
      [CHR 0xE2, CHR 0x80, CHR 0x8A], [CHR 0xE2, CHR 0x80, CHR 0xA8],
      [CHR 0xE2, CHR 0x80, CHR 0xA9], [CHR 0xE2, CHR 0x80, CHR 0xAF],
      [CHR 0xE2, CHR 0x81, CHR 0x9F], [CHR 0xE3, CHR 0x80, CHR 0x80]]"

text \<open>
  The number of bytes of the character of \<open>table\<close> that \<open>s\<close> starts with, 0 when it starts
  with none.
\<close>

definition prefix_len :: "string list \<Rightarrow> string \<Rightarrow> nat" where
  "prefix_len table s = (case find (startswith s) table of None \<Rightarrow> 0 | Some w \<Rightarrow> length w)"

text \<open>
  \<open>s.lstrip()\<close>, \<open>s.rstrip()\<close> and \<open>s.strip()\<close>: \<open>k\<close> counts the bytes of the current white space
  character still to be dropped; from the right the bytes come in reverse.
\<close>

fun lstrip_scan :: "string list \<Rightarrow> nat \<Rightarrow> string \<Rightarrow> string" where
  "lstrip_scan table k [] = []"
| "lstrip_scan table k (c # cs) =
     (if k > 0 then lstrip_scan table (k - 1) cs
      else if prefix_len table (c # cs) > 0
      then lstrip_scan table (prefix_len table (c # cs) - 1) cs
      else c # cs)"

definition lstrip :: "string \<Rightarrow> string" where
  "lstrip s = lstrip_scan spaces 0 s"

definition rstrip :: "string \<Rightarrow> string" where
  "rstrip s = rev (lstrip_scan (map rev spaces) 0 (rev s))"

definition strip :: "string \<Rightarrow> string" where
  "strip s = rstrip (lstrip s)"

text \<open>\<open>s.strip(chars)\<close> for ASCII \<open>chars\<close>.\<close>

definition strip_chars :: "string \<Rightarrow> string \<Rightarrow> string" where
  "strip_chars cs s =
     rev (dropWhile (\<lambda>c. c \<in> set cs) (rev (dropWhile (\<lambda>c. c \<in> set cs) s)))"

text \<open>
  \<open>re.split(r'\s*C\s*', s)\<close> for an ASCII character \<open>C\<close> that is not a space: the scanner
  looks for the leftmost match, which starts at the white space before the next \<open>C\<close> and
  runs over the white space after it. \<open>cur\<close> is the piece read so far and \<open>ws\<close> the white
  space read after it (both reversed); \<open>after\<close> says that a separator has just ended; \<open>k\<close>
  counts the bytes of the current white space character still to be read.
\<close>

fun re_split_scan :: "char \<Rightarrow> string \<Rightarrow> string \<Rightarrow> bool \<Rightarrow> nat \<Rightarrow> string \<Rightarrow> string list" where
  "re_split_scan C cur ws after k [] = [rev (ws @ cur)]"
| "re_split_scan C cur ws after k (x # xs) =
     (if k > 0 then
        (if after then re_split_scan C [] [] True (k - 1) xs
         else re_split_scan C cur (x # ws) False (k - 1) xs)
      else if x = C then rev cur # re_split_scan C [] [] True 0 xs
      else if prefix_len spaces (x # xs) > 0 then
        (if after then re_split_scan C [] [] True (prefix_len spaces (x # xs) - 1) xs
         else re_split_scan C cur (x # ws) False (prefix_len spaces (x # xs) - 1) xs)
      else re_split_scan C (x # ws @ cur) [] False 0 xs)"

definition re_split :: "char \<Rightarrow> string \<Rightarrow> string list" where
  "re_split C s = re_split_scan C [] [] False 0 s"

text \<open>
  \<open>s.replace(old, new)\<close>: the occurrences of \<open>old\<close> found from left to right, none overlapping
  an earlier one; \<open>k\<close> counts the bytes of the current occurrence still to be skipped. An
  empty \<open>old\<close> matches between any two characters and at both ends, which are the places
  before the bytes that do not continue a character.
\<close>

definition continuation :: "char \<Rightarrow> bool" where
  "continuation c \<longleftrightarrow> 128 \<le> (of_char c :: nat) \<and> (of_char c :: nat) < 192"

fun replace_scan :: "string \<Rightarrow> string \<Rightarrow> nat \<Rightarrow> string \<Rightarrow> string" where
  "replace_scan old new k [] = []"
| "replace_scan old new k (c # cs) =
     (if k > 0 then replace_scan old new (k - 1) cs
      else if startswith (c # cs) old then new @ replace_scan old new (length old - 1) cs
      else c # replace_scan old new 0 cs)"

definition replace :: "string \<Rightarrow> string \<Rightarrow> string \<Rightarrow> string" where
  "replace old new s =
     (if old = [] then concat (map (\<lambda>c. if continuation c then [c] else new @ [c]) s) @ new
      else replace_scan old new 0 s)"

text \<open>\<open>len\<close> of a \<open>str\<close>: the number of code points.\<close>

definition py_len :: "string \<Rightarrow> nat" where
  "py_len s = length (filter (\<lambda>c. \<not> continuation c) s)"

section \<open>The synthesizer (utils/circuit\_from\_form.py)\<close>

text \<open>
  \<open>component_type.lower()\<close>, used to look a name up in the registry. Besides the ASCII
  letters two characters have a lower case with an ASCII letter in it: the Kelvin sign
  (\<open>k\<close>) and the capital I with a dot (\<open>i\<close> and a combining dot). The lower case of any other
  character is outside ASCII, as the character itself, and no registered name has such a
  character: for the lookup the bytes of these characters can stay as they are.
\<close>

definition lower_char :: "char \<Rightarrow> char" where
  "lower_char c =
     (case map_of (zip ''ABCDEFGHIJKLMNOPQRSTUVWXYZ'' ''abcdefghijklmnopqrstuvwxyz'') c of
        None \<Rightarrow> c
      | Some l \<Rightarrow> l)"

definition lower :: "string \<Rightarrow> string" where
  "lower s =
     replace [CHR 0xC4, CHR 0xB0] [CHR ''i'', CHR 0xCC, CHR 0x87]
       (replace [CHR 0xE2, CHR 0x84, CHR 0xAA] ''k'' (map lower_char s))"

text \<open>
  The registry: each registered name with the object its class constructs from the default
  arguments (\<open>ComponentRegistry.create\<close> passes only id, label and position).
\<close>

definition registry :: "(string \<times> Kind) list" where
  "registry =
     [(''and'', ANDGate 2), (''or'', ORGate 2), (''not'', NOTGate 1), (''xor'', XORGate 2),
      (''nand'', NANDGate 2), (''nor'', NORGate 2), (''xnor'', XNORGate 2),
      (''buffer'', BufferGate 1),
      (''switch'', Switch False), (''button'', Button False), (''led'', LED False),
      (''inputpin'', InputPin False), (''outputpin'', OutputPin False),
      (''clock'', Clock False 0 1),
      (''dflipflop'', DFlipFlop False False), (''jkflipflop'', JKFlipFlop False False),
      (''srlatch'', SRLatch False), (''register'', Register 4 0 False),
      (''multiplexer'', Multiplexer 4 2), (''mux'', Multiplexer 4 2), (''decoder'', Decoder 2 4),
      (''halfadder'', HalfAdder), (''fulladder'', FullAdder), (''comparator'', Comparator 4)]"

text \<open>
  \<open>ComponentRegistry.create(component_type, label=lbl)\<close>: \<open>None\<close> is the \<open>ValueError\<close> for an
  unregistered name; otherwise the new object (with an empty id) and the store holding it.
\<close>

definition create :: "string \<Rightarrow> string \<Rightarrow> World \<Rightarrow> (nat \<times> World) option" where
  "create component_type lbl s =
     map_option (\<lambda>k. construct [] (if lbl = [] then component_type else lbl) k s)
       (map_of registry (lower component_type))"

text \<open>
  In the methods of the builder \<open>None\<close> stands for a raised exception, which \<open>build_from_pdnf\<close>
  catches: the circuit is then left partly built, and that store is not modelled.

  \<open>wire = Wire("", a, b); self.circuit.add_wire(wire)\<close> is guarded by \<open>if a and b\<close> in
  \<open>_create_not_gates\<close> and \<open>_create_term_and_gate\<close>, and unguarded in the other methods, where
  a missing pin makes \<open>add_wire\<close> raise.
\<close>

fun wire_if_both :: "nat option \<Rightarrow> nat option \<Rightarrow> World \<Rightarrow> World" where
  "wire_if_both (Some a) (Some b) s = add_wire (wire_next s) (snd (new_wire [] a b s))"
| "wire_if_both _ _ s = s"

fun wire_pins :: "nat option \<Rightarrow> nat option \<Rightarrow> World \<Rightarrow> World option" where
  "wire_pins (Some a) (Some b) s = Some (add_wire (wire_next s) (snd (new_wire [] a b s)))"
| "wire_pins _ _ s = None"

text \<open>
  The literal of a term: \<open>(var, False)\<close> when it starts with \<open>!\<close>, \<open>~\<close> or the not sign
  (two bytes in UTF-8), \<open>(lit, True)\<close> otherwise.
\<close>

definition parse_literal :: "string \<Rightarrow> string \<times> bool" where
  "parse_literal l =
     (let lit = strip l in
      if startswith lit ''!'' \<or> startswith lit ''~'' then (strip (drop 1 lit), False)
      else if startswith lit [CHR 0xC2, CHR 0xAC] then (strip (drop 2 lit), False)
      else (lit, True))"

definition parse_dnf_terms :: "string \<Rightarrow> (string \<times> bool) list list" where
  "parse_dnf_terms dnf =
     filter (\<lambda>term. term \<noteq> [])
       (map (\<lambda>term_str. map parse_literal (re_split CHR ''&'' (strip_chars ''()'' (strip term_str))))
          (re_split CHR ''|'' dnf))"

fun create_input_switches ::
  "string list \<Rightarrow> (string \<times> nat) list \<Rightarrow> World \<Rightarrow> ((string \<times> nat) list \<times> World) option" where
  "create_input_switches [] switches s = Some (switches, s)"
| "create_input_switches (var # vars) switches s =
     (case create ''switch'' var s of
        None \<Rightarrow> None
      | Some r \<Rightarrow>
          create_input_switches vars (AList.update var (fst r) switches)
            (add_component (fst r) (snd r)))"

fun create_not_gates ::
  "string list \<Rightarrow> (string \<times> nat) list \<Rightarrow> (string \<times> nat) list \<Rightarrow> World
     \<Rightarrow> ((string \<times> nat) list \<times> World) option" where
  "create_not_gates [] input_switches not_gates s = Some (not_gates, s)"
| "create_not_gates (var # vars) input_switches not_gates s =
     (case create ''not'' (''NOT_'' @ var) s of
        None \<Rightarrow> None
      | Some r \<Rightarrow>
          (case map_of input_switches var of
             None \<Rightarrow> None
           | Some sw \<Rightarrow>
               create_not_gates vars input_switches (AList.update var (fst r) not_gates)
                 (wire_if_both (get_pin (snd r) sw ''out'') (get_pin (snd r) (fst r) ''in0'')
                    (add_component (fst r) (snd r)))))"

text \<open>
  The wiring loop of \<open>_create_term_and_gate\<close>: it stops at the third literal, before looking
  the literal's variable up; a positive literal is wired from its switch, a negative one
  from its NOT gate.
\<close>

fun wire_literals ::
  "nat \<Rightarrow> nat \<Rightarrow> (string \<times> bool) list \<Rightarrow> (string \<times> nat) list \<Rightarrow> (string \<times> nat) list \<Rightarrow> World
     \<Rightarrow> World option" where
  "wire_literals gate i [] input_switches not_gates s = Some s"
| "wire_literals gate i (lit # lits) input_switches not_gates s =
     (if i \<ge> 2 then Some s
      else (case map_of (if snd lit then input_switches else not_gates) (fst lit) of
              None \<Rightarrow> None
            | Some src \<Rightarrow>
                wire_literals gate (i + 1) lits input_switches not_gates
                  (wire_if_both (get_pin s src ''out'') (get_pin s gate (''in'' @ str_nat i)) s)))"

definition create_term_and_gate ::
  "(string \<times> bool) list \<Rightarrow> (string \<times> nat) list \<Rightarrow> (string \<times> nat) list \<Rightarrow> nat \<Rightarrow> World
     \<Rightarrow> (nat \<times> World) option" where
  "create_term_and_gate term input_switches not_gates term_index s =
     (case create ''and'' (''AND'' @ str_nat (term_index + 1)) s of
        None \<Rightarrow> None
      | Some r \<Rightarrow>
          map_option (Pair (fst r))
            (wire_literals (fst r) 0 term input_switches not_gates
               (add_component (fst r) (snd r))))"

fun create_and_gates ::
  "(string \<times> bool) list list \<Rightarrow> nat \<Rightarrow> (string \<times> nat) list \<Rightarrow> (string \<times> nat) list \<Rightarrow> nat list
     \<Rightarrow> World \<Rightarrow> (nat list \<times> World) option" where
  "create_and_gates [] i input_switches not_gates and_gates s = Some (and_gates, s)"
| "create_and_gates (term # terms) i input_switches not_gates and_gates s =
     (case create_term_and_gate term input_switches not_gates i s of
        None \<Rightarrow> None
      | Some r \<Rightarrow>
          create_and_gates terms (i + 1) input_switches not_gates (and_gates @ [fst r]) (snd r))"

fun wire_gates :: "nat \<Rightarrow> nat \<Rightarrow> nat list \<Rightarrow> World \<Rightarrow> World option" where
  "wire_gates final i [] s = Some s"
| "wire_gates final i (g # gs) s =
     (case wire_pins (get_pin s g ''out'') (get_pin s final (''in'' @ str_nat i)) s of
        None \<Rightarrow> None
      | Some s' \<Rightarrow> wire_gates final (i + 1) gs s')"

definition create_final_or_gate :: "nat list \<Rightarrow> World \<Rightarrow> (nat \<times> World) option" where
  "create_final_or_gate and_gates s =
     (case create ''or'' ''OR_FINAL'' s of
        None \<Rightarrow> None
      | Some r \<Rightarrow>
          map_option (Pair (fst r))
            (wire_gates (fst r) 0 (take 2 and_gates) (add_component (fst r) (snd r))))"

definition create_output_led :: "nat \<Rightarrow> World \<Rightarrow> World option" where
  "create_output_led final_gate s =
     (case create ''led'' ''Output'' s of
        None \<Rightarrow> None
      | Some r \<Rightarrow>
          wire_pins (get_pin (snd r) final_gate ''out'') (get_pin (snd r) (fst r) ''in'')
            (add_component (fst r) (snd r)))"

text \<open>
  \<open>build_from_pdnf\<close>: the value returned and the store, or \<open>None\<close> when an exception was
  caught (the call then prints a message and returns \<open>False\<close>).
\<close>

definition finish :: "nat \<Rightarrow> World \<Rightarrow> (bool \<times> World) option" where
  "finish final_or s = map_option (Pair True) (create_output_led final_or s)"

definition combine_terms :: "nat list \<Rightarrow> World \<Rightarrow> (bool \<times> World) option" where
  "combine_terms and_gates s =
     (if length and_gates > 1 then
        (case create_final_or_gate and_gates s of
           None \<Rightarrow> None
         | Some r \<Rightarrow> finish (fst r) (snd r))
      else if length and_gates = 1 then finish (hd and_gates) s
      else Some (False, s))"

definition build_terms ::
  "(string \<times> bool) list list \<Rightarrow> string list \<Rightarrow> World \<Rightarrow> (bool \<times> World) option" where
  "build_terms terms variables s =
     (case create_input_switches variables [] s of
        None \<Rightarrow> None
      | Some r1 \<Rightarrow>
          (case create_not_gates variables (fst r1) [] (snd r1) of
             None \<Rightarrow> None
           | Some r2 \<Rightarrow>
               (case create_and_gates terms 0 (fst r1) (fst r2) [] (snd r2) of
                  None \<Rightarrow> None
                | Some r3 \<Rightarrow> combine_terms (fst r3) (snd r3))))"

definition build_from_pdnf :: "string \<Rightarrow> string list \<Rightarrow> World \<Rightarrow> (bool \<times> World) option" where
  "build_from_pdnf pdnf variables s =
     (if parse_dnf_terms pdnf = [] then Some (False, s)
      else build_terms (parse_dnf_terms pdnf) variables s)"

text \<open>
  The store after the first two statements of \<open>_create_term_and_gate\<close>: the AND gate of
  term number \<open>term_index\<close>, a new object, constructed and added to the circuit.
\<close>

definition and_gate :: "nat \<Rightarrow> World \<Rightarrow> World" where
  "and_gate term_index s =
     add_component (comp_next s)
       (snd (construct [] (''AND'' @ str_nat (term_index + 1)) (ANDGate 2) s))"

text \<open>
  The netlist synthesized from \<open>(A&B)\<close> over the variables \<open>A\<close>, \<open>B\<close> in a fresh circuit, the
  same with both switches set on, and the netlist synthesized from \<open>(!A&B)\<close>.
\<close>

definition ab_built :: World where
  "ab_built = snd (the (build_from_pdnf ''(A&B)'' [''A'', ''B''] World0))"

definition ab_on :: World where
  "ab_on = world_of (set_state 1 True (world_of (set_state 0 True ab_built)))"

definition not_ab_built :: World where
  "not_ab_built = snd (the (build_from_pdnf ''(!A&B)'' [''A'', ''B''] World0))"

section \<open>Boolean expressions (utils/boolean\_algebra.py)\<close>

text \<open>
  The operator symbols outside ASCII, as the bytes of their UTF-8 encoding: the arrow of
  implication, the triple bar of equivalence, the up and down arrows of NAND and NOR, the
  bullet, the wedge, the vee, the not sign and the circled plus.
\<close>

definition IMPL :: string where "IMPL = [CHR 0xE2, CHR 0x86, CHR 0x92]"
definition EQUIV :: string where "EQUIV = [CHR 0xE2, CHR 0x89, CHR 0xA1]"
definition NAND :: string where "NAND = [CHR 0xE2, CHR 0x86, CHR 0x91]"
definition NOR :: string where "NOR = [CHR 0xE2, CHR 0x86, CHR 0x93]"
definition BULLET :: string where "BULLET = [CHR 0xE2, CHR 0x80, CHR 0xA2]"
definition WEDGE :: string where "WEDGE = [CHR 0xE2, CHR 0x88, CHR 0xA7]"
definition VEE :: string where "VEE = [CHR 0xE2, CHR 0x88, CHR 0xA8]"
definition NOTSIGN :: string where "NOTSIGN = [CHR 0xC2, CHR 0xAC]"
definition OPLUS :: string where "OPLUS = [CHR 0xE2, CHR 0x8A, CHR 0x95]"

lemmas symbol_defs = IMPL_def EQUIV_def NAND_def NOR_def BULLET_def WEDGE_def VEE_def
  NOTSIGN_def OPLUS_def

definition AND_OPS :: "string list" where
  "AND_OPS = [''&'', BULLET, WEDGE, ''*'', ''and'', ''AND'']"
definition OR_OPS :: "string list" where
  "OR_OPS = [''|'', VEE, ''+'', ''or'', ''OR'']"
definition NOT_OPS :: "string list" where
  "NOT_OPS = [''!'', NOTSIGN, ''~'', ''not'', ''NOT'']"
definition XOR_OPS :: "string list" where
  "XOR_OPS = [''^'', OPLUS, ''xor'', ''XOR'']"
definition IMPL_OPS :: "string list" where
  "IMPL_OPS = [''->'', IMPL, ''=>'', ''impl'', ''IMPL'']"
definition EQ_OPS :: "string list" where
  "EQ_OPS = [''='', EQUIV, ''~'', ''<->'', ''<=>'', ''eq'', ''EQ'']"
definition NAND_OPS :: "string list" where
  "NAND_OPS = [NAND, ''nand'', ''NAND'']"
definition NOR_OPS :: "string list" where
  "NOR_OPS = [NOR, ''nor'', ''NOR'']"

lemmas table_defs = AND_OPS_def OR_OPS_def NOT_OPS_def XOR_OPS_def IMPL_OPS_def EQ_OPS_def
  NAND_OPS_def NOR_OPS_def

text \<open>\<open>_normalize\<close>: the eight loops over the operator tables, in the order of the source.\<close>

definition normalize :: "string \<Rightarrow> string" where
  "normalize expr =
     fold (\<lambda>op e. if op \<noteq> NOR then replace op NOR e else e) NOR_OPS
    (fold (\<lambda>op e. if op \<noteq> NAND then replace op NAND e else e) NAND_OPS
    (fold (\<lambda>op e. if op \<noteq> ''^'' then replace op ''^'' e else e) XOR_OPS
    (fold (\<lambda>op e. if op \<noteq> ''!'' then replace op ''!'' e else e) NOT_OPS
    (fold (\<lambda>op e. if op \<noteq> ''|'' then replace op ''|'' e else e) OR_OPS
    (fold (\<lambda>op e. if op \<noteq> ''&'' then replace op ''&'' e else e) AND_OPS
    (fold (\<lambda>op e. if py_len op > 1 then replace op EQUIV e else e) EQ_OPS
    (fold (\<lambda>op e. if py_len op > 1 then replace op IMPL e else e) IMPL_OPS
    (strip expr))))))))"

text \<open>
  The letters, the digits and the word characters of \<open>\w\<close> and \<open>\b\<close> are modelled for ASCII.
  A text with a character outside ASCII that is neither white space nor one of the operator
  symbols (none of which is a letter, a digit or a word character) is outside the model.
\<close>

definition symbols :: "string list" where
  "symbols = [IMPL, EQUIV, NAND, NOR, BULLET, WEDGE, VEE, NOTSIGN, OPLUS]"

fun modelled_scan :: "nat \<Rightarrow> string \<Rightarrow> bool" where
  "modelled_scan k [] = True"
| "modelled_scan k (c # cs) =
     (if k > 0 then modelled_scan (k - 1) cs
      else if (of_char c :: nat) < 128 then modelled_scan 0 cs
      else prefix_len (spaces @ symbols) (c # cs) > 0
           \<and> modelled_scan (prefix_len (spaces @ symbols) (c # cs) - 1) cs)"

definition modelled :: "string \<Rightarrow> bool" where
  "modelled s = modelled_scan 0 s"

definition is_alpha :: "char \<Rightarrow> bool" where
  "is_alpha c \<longleftrightarrow>
     c \<in> set ''abcdefghijklmnopqrstuvwxyzABCDEFGHIJKLMNOPQRSTUVWXYZ''"

definition is_digit :: "char \<Rightarrow> bool" where
  "is_digit c \<longleftrightarrow> c \<in> set ''0123456789''"

definition is_word :: "char \<Rightarrow> bool" where
  "is_word c \<longleftrightarrow> is_alpha c \<or> is_digit c \<or> c = CHR ''_''"

text \<open>
  \<open>s.split()\<close>: the maximal runs of characters that are not white space; \<open>k\<close> counts the
  bytes of the current white space character still to be skipped.
\<close>

fun split_scan :: "string \<Rightarrow> nat \<Rightarrow> string \<Rightarrow> string list" where
  "split_scan cur k [] = (if cur = [] then [] else [rev cur])"
| "split_scan cur k (c # cs) =
     (if k > 0 then split_scan cur (k - 1) cs
      else if prefix_len spaces (c # cs) > 0 then
        (if cur = [] then split_scan [] (prefix_len spaces (c # cs) - 1) cs
         else rev cur # split_scan [] (prefix_len spaces (c # cs) - 1) cs)
      else split_scan (c # cur) 0 cs)"

definition split :: "string \<Rightarrow> string list" where
  "split s = split_scan [] 0 s"

text \<open>
  The order of \<open>str\<close> (by code points, which is the order of the UTF-8 bytes) and
  \<open>sorted(list(set(tokens)))\<close>: insertion into a sorted list without repetitions.
\<close>

fun str_less :: "string \<Rightarrow> string \<Rightarrow> bool" where
  "str_less [] [] = False"
| "str_less [] (y # ys) = True"
| "str_less (x # xs) [] = False"
| "str_less (x # xs) (y # ys) =
     ((of_char x :: nat) < of_char y \<or> x = y \<and> str_less xs ys)"

fun insert_sorted :: "string \<Rightarrow> string list \<Rightarrow> string list" where
  "insert_sorted x [] = [x]"
| "insert_sorted x (y # ys) =
     (if x = y then y # ys
      else if str_less x y then x # y # ys
      else y # insert_sorted x ys)"

definition sorted_set :: "string list \<Rightarrow> string list" where
  "sorted_set xs = fold insert_sorted xs []"

text \<open>\<open>_extract_variables\<close>, on the normalized expression.\<close>

definition extract_variables :: "string \<Rightarrow> string list" where
  "extract_variables normalized =
     sorted_set
       (filter (\<lambda>token. token \<noteq> [] \<and> is_alpha (hd token))
          (split
             (fold (\<lambda>op cleaned. replace op '' '' cleaned)
                [''&'', ''|'', ''!'', ''^'', IMPL, EQUIV, NAND, NOR, ''('', '')'', '' '']
                normalized)))"

text \<open>
  \<open>re.sub(r'\b' + re.escape(var) + r'\b', rep, expr)\<close>: the occurrences of \<open>var\<close> between two
  word boundaries, from left to right; \<open>pw\<close> tells whether the character before the current
  position is a word character, \<open>k\<close> counts the bytes of the current match still to be
  skipped. With an empty \<open>var\<close> the pattern matches the empty string at every word boundary.
\<close>

definition next_is_word :: "string \<Rightarrow> bool" where
  "next_is_word s = (case s of [] \<Rightarrow> False | c # cs \<Rightarrow> is_word c)"

definition word_match :: "string \<Rightarrow> bool \<Rightarrow> string \<Rightarrow> bool" where
  "word_match var pw s \<longleftrightarrow>
     startswith s var \<and> pw \<noteq> is_word (hd var)
   \<and> is_word (last var) \<noteq> next_is_word (drop (length var) s)"

fun sub_scan :: "string \<Rightarrow> string \<Rightarrow> bool \<Rightarrow> nat \<Rightarrow> string \<Rightarrow> string" where
  "sub_scan var rep pw k [] = []"
| "sub_scan var rep pw k (c # cs) =
     (if k > 0 then sub_scan var rep (is_word c) (k - 1) cs
      else if word_match var pw (c # cs) then rep @ sub_scan var rep (is_word c) (length var - 1) cs
      else c # sub_scan var rep (is_word c) 0 cs)"

fun sub_boundaries :: "string \<Rightarrow> bool \<Rightarrow> string \<Rightarrow> string" where
  "sub_boundaries rep pw [] = (if pw then rep else [])"
| "sub_boundaries rep pw (c # cs) =
     (if pw \<noteq> is_word c then rep @ c # sub_boundaries rep (is_word c) cs
      else c # sub_boundaries rep (is_word c) cs)"

definition sub_var :: "string \<Rightarrow> string \<Rightarrow> string \<Rightarrow> string" where
  "sub_var var rep expr =
     (if var = [] then sub_boundaries rep False expr else sub_scan var rep False 0 expr)"

text \<open>\<open>op in expr\<close>: \<open>op\<close> occurs in \<open>expr\<close>.\<close>

fun contains :: "string \<Rightarrow> string \<Rightarrow> bool" where
  "contains op [] = (op = [])"
| "contains op (c # cs) = (startswith (c # cs) op \<or> contains op cs)"

text \<open>
  The four binary operators that \<open>evaluate\<close> rewrites by regular expression, the symbol of
  each and the text that replaces a match with operands \<open>a\<close> and \<open>b\<close>.
\<close>

datatype BinOp = Implication | Equivalence | NotAnd | NotOr

fun symbol :: "BinOp \<Rightarrow> string" where
  "symbol Implication = IMPL"
| "symbol Equivalence = EQUIV"
| "symbol NotAnd = NAND"
| "symbol NotOr = NOR"

fun replacement :: "BinOp \<Rightarrow> string \<Rightarrow> string \<Rightarrow> string" where
  "replacement Implication a b = ''(not '' @ a @ '' or '' @ b @ '')''"
| "replacement Equivalence a b =
     ''(('' @ a @ '' and '' @ b @ '') or (not '' @ a @ '' and not '' @ b @ ''))''"
| "replacement NotAnd a b = ''not ('' @ a @ '' and '' @ b @ '')''"
| "replacement NotOr a b = ''not ('' @ a @ '' or '' @ b @ '')''"

text \<open>
  A match of \<open>(\w+|True|False)\s*op\s*(\w+|True|False)\<close> at the start of \<open>s\<close>: the two groups
  and the length of the match. The first group is the longest run of word characters (a
  shorter one would be followed by a word character, which neither \<open>\s*\<close> nor the symbol
  matches, and the alternatives \<open>True\<close> and \<open>False\<close> are words); the second is the longest
  run as well, \<open>\w+\<close> being greedy.
\<close>

definition match_here :: "string \<Rightarrow> string \<Rightarrow> (string \<times> string \<times> nat) option" where
  "match_here op s =
     (if takeWhile is_word s = []
        \<or> \<not> startswith (lstrip (dropWhile is_word s)) op
        \<or> takeWhile is_word (lstrip (drop (length op) (lstrip (dropWhile is_word s)))) = []
      then None
      else Some
        (takeWhile is_word s,
         takeWhile is_word (lstrip (drop (length op) (lstrip (dropWhile is_word s)))),
         length s
         - length (dropWhile is_word
             (lstrip (drop (length op) (lstrip (dropWhile is_word s)))))))"

text \<open>\<open>re.search\<close>: the leftmost match, as (start, first group, second group, end).\<close>

fun search :: "string \<Rightarrow> nat \<Rightarrow> string \<Rightarrow> (nat \<times> string \<times> string \<times> nat) option" where
  "search op i [] = None"
| "search op i (c # cs) =
     (case match_here op (c # cs) of
        None \<Rightarrow> search op (i + 1) cs
      | Some m \<Rightarrow> Some (i, fst m, fst (snd m), i + snd (snd m)))"

text \<open>The number of bytes outside ASCII: it decreases with every rewriting.\<close>

definition non_ascii :: "string \<Rightarrow> nat" where
  "non_ascii s = length (filter (\<lambda>c. 128 \<le> (of_char c :: nat)) s)"

lemma non_ascii_append: "non_ascii (a @ b) = non_ascii a + non_ascii b"
  by (simp add: non_ascii_def)

lemma word_ascii: "is_word c \<Longrightarrow> (of_char c :: nat) < 128"
  by (auto simp: is_word_def is_alpha_def is_digit_def)

lemma non_ascii_word: "\<forall>c \<in> set a. is_word c \<Longrightarrow> non_ascii a = 0"
  using word_ascii by (fastforce simp: non_ascii_def filter_empty_conv)

lemma non_ascii_replacement:
  assumes "\<forall>c \<in> set a. is_word c" and "\<forall>c \<in> set b. is_word c"
  shows "non_ascii (replacement op a b) = 0"
  using non_ascii_word [OF assms(1)] non_ascii_word [OF assms(2)]
  by (cases op) (simp_all add: non_ascii_append, simp_all add: non_ascii_def)

lemma non_ascii_symbol: "0 < non_ascii (symbol op)"
  by (cases op) (simp_all add: non_ascii_def symbol_defs)

lemma lstrip_scan_suffix: "\<exists>w. s = w @ lstrip_scan table k s"
proof (induction s arbitrary: k)
  case Nil
  show ?case by simp
next
  case (Cons c cs)
  from Cons [of "k - 1"] obtain w1 where w1: "cs = w1 @ lstrip_scan table (k - 1) cs" by blast
  from Cons [of "prefix_len table (c # cs) - 1"] obtain w2
    where w2: "cs = w2 @ lstrip_scan table (prefix_len table (c # cs) - 1) cs" by blast
  show ?case
  proof (cases "k > 0")
    case True
    then have "lstrip_scan table k (c # cs) = lstrip_scan table (k - 1) cs" by simp
    then show ?thesis using w1 by (metis append_Cons)
  next
    case False
    show ?thesis
    proof (cases "prefix_len table (c # cs) > 0")
      case True
      have "lstrip_scan table k (c # cs) = lstrip_scan table (prefix_len table (c # cs) - 1) cs"
        using False True by simp
      then show ?thesis using w2 by (metis append_Cons)
    next
      case F2: False
      have "lstrip_scan table k (c # cs) = c # cs" using False F2 by simp
      then show ?thesis by (metis append_Nil)
    qed
  qed
qed

lemma lstrip_suffix: "\<exists>w. s = w @ lstrip s"
  unfolding lstrip_def by (rule lstrip_scan_suffix)

lemma match_here_Some:
  assumes "match_here op s = Some m"
  shows "\<exists>w1 w2 rest. s = fst m @ w1 @ op @ w2 @ fst (snd m) @ rest
           \<and> snd (snd m) = length (fst m @ w1 @ op @ w2 @ fst (snd m))
           \<and> (\<forall>c \<in> set (fst m). is_word c) \<and> (\<forall>c \<in> set (fst (snd m)). is_word c)"
proof -
  define a where "a = takeWhile is_word s"
  define s1 where "s1 = dropWhile is_word s"
  define r1 where "r1 = lstrip s1"
  define r1' where "r1' = drop (length op) r1"
  define r2 where "r2 = lstrip r1'"
  define b where "b = takeWhile is_word r2"
  define rest where "rest = dropWhile is_word r2"
  obtain w1 where w1: "s1 = w1 @ r1" using lstrip_suffix [of s1] unfolding r1_def by blast
  obtain w2 where w2: "r1' = w2 @ r2" using lstrip_suffix [of r1'] unfolding r2_def by blast
  have ok: "startswith r1 op" and m: "m = (a, b, length s - length rest)"
    using assms
    by (simp_all add: match_here_def a_def s1_def r1_def r1'_def r2_def b_def rest_def
        split: if_splits)
  have "r1 = op @ r1'"
    using ok append_take_drop_id [of "length op" r1] by (simp add: startswith_def r1'_def)
  moreover have "s = a @ s1" "r2 = b @ rest"
    by (simp_all add: a_def s1_def b_def rest_def)
  ultimately have s: "s = a @ w1 @ op @ w2 @ b @ rest"
    using w1 w2 by simp
  have "length s - length rest = length (a @ w1 @ op @ w2 @ b)"
    by (subst s) simp
  moreover have "\<forall>c \<in> set a. is_word c" "\<forall>c \<in> set b. is_word c"
    by (auto simp: a_def b_def dest: set_takeWhileD)
  ultimately show ?thesis using s m by (intro exI [of _ w1] exI [of _ w2] exI [of _ rest]) simp
qed

lemma search_Some:
  assumes "search op i s = Some r"
  shows "\<exists>pre w1 w2 post.
           s = pre @ (fst (snd r) @ w1 @ op @ w2 @ fst (snd (snd r))) @ post
         \<and> fst r = i + length pre
         \<and> snd (snd (snd r)) = i + length pre + length (fst (snd r) @ w1 @ op @ w2 @ fst (snd (snd r)))
         \<and> (\<forall>c \<in> set (fst (snd r)). is_word c) \<and> (\<forall>c \<in> set (fst (snd (snd r))). is_word c)"
  using assms
proof (induction s arbitrary: i)
  case Nil
  then show ?case by simp
next
  case (Cons c cs)
  show ?case
  proof (cases "match_here op (c # cs)")
    case None
    then have "search op (i + 1) cs = Some r" using Cons.prems by simp
    from Cons.IH [OF this] obtain pre w1 w2 post where
      p: "cs = pre @ (fst (snd r) @ w1 @ op @ w2 @ fst (snd (snd r))) @ post"
        "fst r = i + 1 + length pre"
        "snd (snd (snd r)) =
           i + 1 + length pre + length (fst (snd r) @ w1 @ op @ w2 @ fst (snd (snd r)))"
        "\<forall>c \<in> set (fst (snd r)). is_word c" "\<forall>c \<in> set (fst (snd (snd r))). is_word c"
      by blast
    show ?thesis
      using p by (intro exI [of _ "c # pre"] exI [of _ w1] exI [of _ w2] exI [of _ post]) simp
  next
    case (Some m)
    then have r: "r = (i, fst m, fst (snd m), i + snd (snd m))" using Cons.prems by simp
    from match_here_Some [OF Some] obtain w1 w2 rest where
      "c # cs = fst m @ w1 @ op @ w2 @ fst (snd m) @ rest"
      "snd (snd m) = length (fst m @ w1 @ op @ w2 @ fst (snd m))"
      "\<forall>c \<in> set (fst m). is_word c" "\<forall>c \<in> set (fst (snd m)). is_word c"
      by blast
    then show ?thesis
      unfolding r by (intro exI [of _ "[]"] exI [of _ w1] exI [of _ w2] exI [of _ rest]) simp
  qed
qed

lemma search_decreases:
  assumes "search (symbol op) 0 expr = Some r"
  shows "non_ascii (take (fst r) expr @ replacement op (fst (snd r)) (fst (snd (snd r)))
                      @ drop (snd (snd (snd r))) expr) < non_ascii expr"
proof -
  from search_Some [OF assms] obtain pre w1 w2 post where
    p: "expr = pre @ (fst (snd r) @ w1 @ symbol op @ w2 @ fst (snd (snd r))) @ post"
      "fst r = length pre"
      "snd (snd (snd r)) =
         length pre + length (fst (snd r) @ w1 @ symbol op @ w2 @ fst (snd (snd r)))"
      "\<forall>c \<in> set (fst (snd r)). is_word c" "\<forall>c \<in> set (fst (snd (snd r))). is_word c"
    by auto
  have t: "take (fst r) expr = pre"
    by (subst p(1)) (simp add: p(2))
  have d: "drop (snd (snd (snd r))) expr = post"
    by (subst p(1)) (simp add: p(3))
  have "non_ascii (pre @ replacement op (fst (snd r)) (fst (snd (snd r))) @ post)
        = non_ascii pre + non_ascii post"
    by (simp add: non_ascii_append non_ascii_replacement [OF p(4,5)])
  moreover have "non_ascii expr \<ge> non_ascii pre + non_ascii (symbol op) + non_ascii post"
    by (subst p(1)) (simp add: non_ascii_append)
  ultimately show ?thesis using non_ascii_symbol [of op] unfolding t d by simp
qed

text \<open>
  One of the four \<open>while\<close> loops of \<open>evaluate\<close>: as long as the symbol occurs, rewrite the
  leftmost match; stop when there is no match.
\<close>

function rewrite :: "BinOp \<Rightarrow> string \<Rightarrow> string" where
  "rewrite op expr =
     (if contains (symbol op) expr then
        (case search (symbol op) 0 expr of
           None \<Rightarrow> expr
         | Some r \<Rightarrow>
             rewrite op (take (fst r) expr @ replacement op (fst (snd r)) (fst (snd (snd r)))
                          @ drop (snd (snd (snd r))) expr))
      else expr)"
  by pat_completeness auto

termination
  by (relation "measure (\<lambda>p. non_ascii (snd p))") (simp_all add: search_decreases)

declare rewrite.simps [simp del]

subsection \<open>The expressions given to \<open>eval\<close>\<close>

text \<open>
  \<open>eval\<close> is modelled on the expressions built from \<open>True\<close>, \<open>False\<close>, decimal integers and
  names with \<open>not\<close>, \<open>and\<close>, \<open>or\<close>, \<open>!=\<close> and parentheses, separated by spaces and tabs. The
  outcome of a text is a value, or \<open>Lookup\<close> when the value depends on what a name is bound
  to where \<open>eval\<close> is called, or \<open>Invalid\<close> when the text is not such an expression: Python
  then raises \<open>SyntaxError\<close>, or the text is a Python expression of another kind, about
  which the model says nothing.
\<close>

datatype pyval = PyBool bool | PyInt nat

datatype outcome = Val pyval | Lookup | Invalid

datatype token =
  LParen | RParen | NotEqual | KwAnd | KwOr | KwNot | KwTrue | KwFalse
  | Name string | Number nat | Bad

fun truthy :: "pyval \<Rightarrow> bool" where
  "truthy (PyBool b) = b"
| "truthy (PyInt n) = (n \<noteq> 0)"

fun num :: "pyval \<Rightarrow> nat" where
  "num (PyBool b) = (if b then 1 else 0)"
| "num (PyInt n) = n"

text \<open>The other py_keywords of Python: none of them is a name.\<close>

definition py_keywords :: "string list" where
  "py_keywords =
     [''None'', ''as'', ''assert'', ''async'', ''await'', ''break'', ''class'', ''continue'',
      ''def'', ''del'', ''elif'', ''else'', ''except'', ''finally'', ''for'', ''from'',
      ''global'', ''if'', ''import'', ''in'', ''is'', ''lambda'', ''nonlocal'', ''pass'',
      ''raise'', ''return'', ''try'', ''while'', ''with'', ''yield'']"

definition digits_value :: "string \<Rightarrow> nat" where
  "digits_value w = fold (\<lambda>c n. 10 * n + (of_char c - 48)) w 0"

text \<open>
  The token of a maximal run of word characters. A run that starts with a digit is a
  decimal integer without a leading zero, or is not modelled.
\<close>

definition word_token :: "string \<Rightarrow> token" where
  "word_token w =
     (if w = ''True'' then KwTrue
      else if w = ''False'' then KwFalse
      else if w = ''and'' then KwAnd
      else if w = ''or'' then KwOr
      else if w = ''not'' then KwNot
      else if is_digit (hd w) then
        (if list_all is_digit w \<and> (length w = 1 \<or> hd w \<noteq> CHR ''0'')
         then Number (digits_value w) else Bad)
      else if w \<in> set py_keywords then Bad
      else Name w)"

definition flush :: "string \<Rightarrow> token list \<Rightarrow> token list" where
  "flush w ts = (if w = [] then ts else word_token (rev w) # ts)"

text \<open>
  The tokens of a text: \<open>w\<close> holds the word being read, reversed, and \<open>bang\<close> says that the
  previous character was the \<open>!\<close> of a \<open>!=\<close>. Scanning stops at the first character that is
  not modelled.
\<close>

fun lex :: "bool \<Rightarrow> string \<Rightarrow> string \<Rightarrow> token list" where
  "lex bang w [] = (if bang then [Bad] else flush w [])"
| "lex bang w (c # cs) =
     (if bang then (if c = CHR ''='' then NotEqual # lex False [] cs else [Bad])
      else if is_word c then lex False (c # w) cs
      else flush w
        (if c = CHR '' '' \<or> c = CHR 0x09 then lex False [] cs
         else if c = CHR ''('' then LParen # lex False [] cs
         else if c = CHR '')'' then RParen # lex False [] cs
         else if c = CHR ''!'' then lex True [] cs
         else [Bad]))"

fun balanced :: "nat \<Rightarrow> token list \<Rightarrow> bool" where
  "balanced d [] = (d = 0)"
| "balanced d (t # ts) =
     (if t = LParen then balanced (d + 1) ts
      else if t = RParen then d > 0 \<and> balanced (d - 1) ts
      else balanced d ts)"

text \<open>
  The pieces of a token list between the occurrences of \<open>sep\<close> that are outside all
  parentheses; \<open>d\<close> is the depth and \<open>cur\<close> the current piece, reversed.
\<close>

fun split_top :: "token \<Rightarrow> nat \<Rightarrow> token list \<Rightarrow> token list \<Rightarrow> token list list" where
  "split_top sep d cur [] = [rev cur]"
| "split_top sep d cur (t # ts) =
     (if t = sep \<and> d = 0 then rev cur # split_top sep 0 [] ts
      else split_top sep (if t = LParen then d + 1 else if t = RParen then d - 1 else d)
             (t # cur) ts)"

text \<open>The value of a single token.\<close>

fun atom :: "token \<Rightarrow> outcome" where
  "atom KwTrue = Val (PyBool True)"
| "atom KwFalse = Val (PyBool False)"
| "atom (Number n) = Val (PyInt n)"
| "atom (Name x) = Lookup"
| "atom _ = Invalid"

text \<open>
  \<open>not x\<close>; \<open>x or y or ...\<close>, the first operand that is true, or the last one; \<open>x and y and
  ...\<close>, the first operand that is false, or the last one; \<open>x != y != ...\<close>, a single operand
  as it is, otherwise whether all neighbours differ. Operands are evaluated from left to
  right, as far as needed.
\<close>

fun negate :: "outcome \<Rightarrow> outcome" where
  "negate (Val v) = Val (PyBool (\<not> truthy v))"
| "negate r = r"

fun first_true :: "outcome list \<Rightarrow> outcome" where
  "first_true [] = Invalid"
| "first_true [r] = r"
| "first_true (Val v # rs) = (if truthy v then Val v else first_true rs)"
| "first_true (r # rs) = r"

fun first_false :: "outcome list \<Rightarrow> outcome" where
  "first_false [] = Invalid"
| "first_false [r] = r"
| "first_false (Val v # rs) = (if truthy v then first_false rs else Val v)"
| "first_false (r # rs) = r"

fun all_differ :: "outcome list \<Rightarrow> outcome" where
  "all_differ (Val x # Val y # rs) =
     (if num x \<noteq> num y then (if rs = [] then Val (PyBool True) else all_differ (Val y # rs))
      else Val (PyBool False))"
| "all_differ [r] = r"
| "all_differ _ = Lookup"

text \<open>A syntax error anywhere makes the whole expression invalid, whatever is evaluated.\<close>

definition combine :: "(outcome list \<Rightarrow> outcome) \<Rightarrow> outcome list \<Rightarrow> outcome" where
  "combine f rs = (if Invalid \<in> set rs then Invalid else f rs)"

datatype level = Comparison | Inversion | Conjunction | Disjunction

fun rank :: "level \<Rightarrow> nat" where
  "rank Comparison = 0"
| "rank Inversion = 1"
| "rank Conjunction = 2"
| "rank Disjunction = 3"

lemma length_split_top:
  "seg \<in> set (split_top sep d cur ts) \<Longrightarrow> length seg \<le> length cur + length ts"
proof (induction ts arbitrary: d cur)
  case Nil
  then show ?case by simp
next
  case (Cons t ts)
  show ?case
  proof (cases "t = sep \<and> d = 0")
    case True
    then have "seg = rev cur \<or> seg \<in> set (split_top sep 0 [] ts)" using Cons.prems by simp
    then show ?thesis using Cons.IH [of 0 "[]"] by auto
  next
    case False
    define d' where "d' = (if t = LParen then d + 1 else if t = RParen then d - 1 else d)"
    have "split_top sep d cur (t # ts) = split_top sep d' (t # cur) ts"
      using False unfolding d'_def by (subst split_top.simps) (simp only: if_False)
    then have "seg \<in> set (split_top sep d' (t # cur) ts)"
      using Cons.prems by simp
    from Cons.IH [OF this] show ?thesis by simp
  qed
qed

text \<open>
  The grammar, from \<open>or\<close> down to the comparisons: a disjunction is cut at its \<open>or\<close>s, a
  conjunction at its \<open>and\<close>s, an inversion is \<open>not\<close> before an inversion or is a comparison,
  a comparison is cut at its \<open>!=\<close>s, and an operand of a comparison is a single token or a
  disjunction between a pair of matching parentheses.
\<close>

function parse :: "level \<Rightarrow> token list \<Rightarrow> outcome" where
  "parse Disjunction ts = combine first_true (map (parse Conjunction) (split_top KwOr 0 [] ts))"
| "parse Conjunction ts = combine first_false (map (parse Inversion) (split_top KwAnd 0 [] ts))"
| "parse Inversion ts =
     (if ts \<noteq> [] \<and> hd ts = KwNot then negate (parse Inversion (tl ts))
      else parse Comparison ts)"
| "parse Comparison ts =
     combine all_differ
       (map (\<lambda>seg. if length seg = 1 then atom (hd seg)
                   else if 2 \<le> length seg \<and> hd seg = LParen \<and> last seg = RParen
                           \<and> balanced 0 (butlast (tl seg))
                   then parse Disjunction (butlast (tl seg))
                   else Invalid)
          (split_top NotEqual 0 [] ts))"
  by pat_completeness auto

termination
proof (relation "inv_image (less_than <*lex*> less_than) (\<lambda>p. (length (snd p), rank (fst p)))")
  show "wf (inv_image (less_than <*lex*> less_than) (\<lambda>p. (length (snd p), rank (fst p))))"
    by (intro wf_inv_image wf_lex_prod wf_less_than)
next
  fix ts seg
  assume "seg \<in> set (split_top KwOr 0 [] ts)"
  from length_split_top [OF this]
  show "((Conjunction, seg), (Disjunction, ts))
      \<in> inv_image (less_than <*lex*> less_than) (\<lambda>p. (length (snd p), rank (fst p)))"
    by auto
next
  fix ts seg
  assume "seg \<in> set (split_top KwAnd 0 [] ts)"
  from length_split_top [OF this]
  show "((Inversion, seg), (Conjunction, ts))
      \<in> inv_image (less_than <*lex*> less_than) (\<lambda>p. (length (snd p), rank (fst p)))"
    by auto
next
  fix ts :: "token list"
  assume "ts \<noteq> [] \<and> hd ts = KwNot"
  then show "((Inversion, tl ts), (Inversion, ts))
      \<in> inv_image (less_than <*lex*> less_than) (\<lambda>p. (length (snd p), rank (fst p)))"
    by (cases ts) auto
next
  fix ts :: "token list"
  show "((Comparison, ts), (Inversion, ts))
      \<in> inv_image (less_than <*lex*> less_than) (\<lambda>p. (length (snd p), rank (fst p)))"
    by simp
next
  fix ts seg
  assume "seg \<in> set (split_top NotEqual 0 [] ts)" and "length seg \<noteq> 1"
    and "2 \<le> length seg \<and> hd seg = LParen \<and> last seg = RParen \<and> balanced 0 (butlast (tl seg))"
  then show "((Disjunction, butlast (tl seg)), (Comparison, ts))
      \<in> inv_image (less_than <*lex*> less_than) (\<lambda>p. (length (snd p), rank (fst p)))"
    using length_split_top [of seg NotEqual 0 "[]" ts] by auto
qed

declare parse.simps [simp del]

text \<open>\<open>eval(expr)\<close> on the modelled expressions.\<close>

definition py_eval :: "string \<Rightarrow> outcome" where
  "py_eval expr =
     (if Bad \<in> set (lex False [] expr) \<or> \<not> balanced 0 (lex False [] expr) then Invalid
      else parse Disjunction (lex False [] expr))"

subsection \<open>Evaluation and truth tables\<close>

text \<open>
  \<open>BooleanExpression.evaluate\<close>, here \<open>evaluate_expression\<close>. It reads only
  \<open>self.normalized\<close>: the variables are replaced in the order of \<open>values.items()\<close>, then the
  operators, then the four rewriting loops run, and the text goes to \<open>eval\<close>. \<open>None\<close> stands
  for the \<open>ValueError\<close> of the source and for the texts that the model does not cover.
\<close>

definition substituted :: "string \<Rightarrow> (string \<times> bool) list \<Rightarrow> string" where
  "substituted normalized values =
     fold (\<lambda>vv expr. sub_var (fst vv) (if snd vv then ''True'' else ''False'') expr)
       values normalized"

definition python_text :: "string \<Rightarrow> string" where
  "python_text expr =
     rewrite NotOr (rewrite NotAnd (rewrite Equivalence (rewrite Implication
       (replace ''^'' '' != '' (replace ''!'' '' not '' (replace ''|'' '' or ''
         (replace ''&'' '' and '' expr)))))))"

definition evaluate_expression :: "string \<Rightarrow> (string \<times> bool) list \<Rightarrow> bool option" where
  "evaluate_expression normalized values =
     (if \<not> modelled normalized then None
      else (case py_eval (python_text (substituted normalized values)) of
              Val v \<Rightarrow> Some (truthy v)
            | _ \<Rightarrow> None))"

record TruthTableRow =
  inputs :: "(string \<times> bool) list"
  "output" :: bool

record TruthTable =
  variables :: "string list"
  rows :: "TruthTableRow list"

definition get_minterms :: "TruthTable \<Rightarrow> TruthTableRow list" where
  "get_minterms truth_table = filter (\<lambda>row. output row) (rows truth_table)"

definition get_maxterms :: "TruthTable \<Rightarrow> TruthTableRow list" where
  "get_maxterms truth_table = filter (\<lambda>row. \<not> output row) (rows truth_table)"

text \<open>\<open>itertools.product([False, True], repeat=n)\<close> and \<open>dict(zip(keys, vals))\<close>.\<close>

fun product_repeat :: "nat \<Rightarrow> bool list list" where
  "product_repeat 0 = [[]]"
| "product_repeat (Suc n) =
     map ((#) False) (product_repeat n) @ map ((#) True) (product_repeat n)"

definition dict_zip :: "string list \<Rightarrow> bool list \<Rightarrow> (string \<times> bool) list" where
  "dict_zip keys vals = fold (\<lambda>kv d. AList.update (fst kv) (snd kv) d) (zip keys vals) []"

text \<open>
  \<open>generate_truth_table\<close>: \<open>None\<close> when no variable is found (a \<open>ValueError\<close>), when the
  evaluation of a row has no value, or when the text is outside the model.
\<close>

definition table_row :: "string \<Rightarrow> string list \<Rightarrow> bool list \<Rightarrow> TruthTableRow option" where
  "table_row normalized vars combination =
     map_option (\<lambda>out. \<lparr>inputs = dict_zip vars combination, output = out\<rparr>)
       (evaluate_expression normalized (dict_zip vars combination))"

definition generate_truth_table :: "string \<Rightarrow> TruthTable option" where
  "generate_truth_table expression =
     (if \<not> modelled (normalize expression) \<or> extract_variables (normalize expression) = []
      then None
      else map_option (\<lambda>rs. \<lparr>variables = extract_variables (normalize expression), rows = rs\<rparr>)
             (those (map (table_row (normalize expression)
                            (extract_variables (normalize expression)))
                       (product_repeat (length (extract_variables (normalize expression)))))))"

subsection \<open>Normal forms and the Zhegalkin polynomial\<close>

text \<open>\<open>sep.join(xs)\<close>.\<close>

fun join :: "string \<Rightarrow> string list \<Rightarrow> string" where
  "join sep [] = []"
| "join sep [x] = x"
| "join sep (x # y # ys) = x @ sep @ join sep (y # ys)"

text \<open>
  The two loops of \<open>calculate_pdnf\<close> and of \<open>calculate_pcnf\<close>, each appending to its list;
  \<open>None\<close> is the \<open>KeyError\<close> of \<open>row.inputs[var]\<close>. The flag \<open>pos\<close> is the value of a variable
  for which the literal is the plain variable.
\<close>

definition add_literal :: "bool \<Rightarrow> TruthTableRow \<Rightarrow> string \<Rightarrow> string list option \<Rightarrow> string list option" where
  "add_literal pos row var literals =
     (case literals of
        None \<Rightarrow> None
      | Some ls \<Rightarrow>
          (case map_of (inputs row) var of
             None \<Rightarrow> None
           | Some v \<Rightarrow> Some (ls @ [if v = pos then var else ''!'' @ var])))"

definition add_term ::
  "bool \<Rightarrow> string \<Rightarrow> string list \<Rightarrow> TruthTableRow \<Rightarrow> string list option \<Rightarrow> string list option" where
  "add_term pos inner vars row terms =
     (case terms of
        None \<Rightarrow> None
      | Some ts \<Rightarrow>
          (case fold (add_literal pos row) vars (Some []) of
             None \<Rightarrow> None
           | Some literals \<Rightarrow> Some (ts @ [''('' @ join inner literals @ '')''])))"

definition calculate_pdnf :: "TruthTable \<Rightarrow> string option" where
  "calculate_pdnf truth_table =
     (if get_minterms truth_table = [] then Some ''0''
      else map_option (join '' | '')
             (fold (add_term True ''&'' (variables truth_table)) (get_minterms truth_table)
                (Some [])))"

definition calculate_pcnf :: "TruthTable \<Rightarrow> string option" where
  "calculate_pcnf truth_table =
     (if get_maxterms truth_table = [] then Some ''1''
      else map_option (join '' & '')
             (fold (add_term False ''|'' (variables truth_table)) (get_maxterms truth_table)
                (Some [])))"

text \<open>
  \<open>calculate_zhegalkin\<close>. The triangle gets one new row for each of the \<open>n\<close> variables, each
  the sums modulo 2 of the neighbours of the row before; the coefficients are the first
  entries of the rows (\<open>None\<close> is the \<open>IndexError\<close> of an empty row); coefficient \<open>i\<close> stands
  for the variables at the positions of the one bits of \<open>i\<close>, bit \<open>j\<close> being \<open>(i >> j) & 1\<close>.
\<close>

fun new_row :: "nat list \<Rightarrow> nat list" where
  "new_row (x # y # ys) = (x + y) mod 2 # new_row (y # ys)"
| "new_row _ = []"

definition triangle :: "nat list \<Rightarrow> nat \<Rightarrow> nat list list" where
  "triangle outputs n = fold (\<lambda>i tri. tri @ [new_row (last tri)]) [0..<n] [outputs]"

definition coefficients :: "nat list list \<Rightarrow> nat list option" where
  "coefficients tri = those (map (\<lambda>r. if r = [] then None else Some (hd r)) tri)"

definition var_indices :: "nat \<Rightarrow> nat \<Rightarrow> nat list" where
  "var_indices n i = filter (\<lambda>j. drop_bit j i AND 1 \<noteq> 0) [0..<n]"

definition add_monomial :: "string list \<Rightarrow> nat \<times> nat \<Rightarrow> string list \<Rightarrow> string list" where
  "add_monomial vars ic terms =
     (if snd ic = 1 then
        (if fst ic = 0 then terms @ [''1'']
         else if var_indices (length vars) (fst ic) \<noteq> []
         then terms @ [join ''&'' (map (\<lambda>j. vars ! j) (var_indices (length vars) (fst ic)))]
         else terms)
      else terms)"

definition calculate_zhegalkin :: "TruthTable \<Rightarrow> string option" where
  "calculate_zhegalkin truth_table =
     map_option
       (\<lambda>cs. if fold (add_monomial (variables truth_table)) (zip [0..<length cs] cs) [] = []
              then ''0''
              else join ('' '' @ OPLUS @ '' '')
                     (fold (add_monomial (variables truth_table)) (zip [0..<length cs] cs) []))
       (coefficients
          (triangle (map (\<lambda>row. if output row then 1 else 0) (rows truth_table))
             (length (variables truth_table))))"

text \<open>Every row of \<open>rs\<close> gives a value to every variable of \<open>vars\<close>.\<close>

definition defined_rows :: "TruthTableRow list \<Rightarrow> string list \<Rightarrow> bool" where
  "defined_rows rs vars =
     list_all (\<lambda>row. list_all (\<lambda>var. map_of (inputs row) var \<noteq> None) vars) rs"

text \<open>The truth table of \<open>A&B\<close>, and that of the function \<open>B\<close> over the variables \<open>A\<close>, \<open>B\<close>.\<close>

definition and_table :: TruthTable where
  "and_table =
     \<lparr>variables = [''A'', ''B''],
      rows = [\<lparr>inputs = [(''A'', False), (''B'', False)], output = False\<rparr>,
              \<lparr>inputs = [(''A'', False), (''B'', True)], output = False\<rparr>,
              \<lparr>inputs = [(''A'', True), (''B'', False)], output = False\<rparr>,
              \<lparr>inputs = [(''A'', True), (''B'', True)], output = True\<rparr>]\<rparr>"

definition b_table :: TruthTable where
  "b_table =
     \<lparr>variables = [''A'', ''B''],
      rows = [\<lparr>inputs = [(''A'', False), (''B'', False)], output = False\<rparr>,
              \<lparr>inputs = [(''A'', False), (''B'', True)], output = True\<rparr>,
              \<lparr>inputs = [(''A'', True), (''B'', False)], output = False\<rparr>,
              \<lparr>inputs = [(''A'', True), (''B'', True)], output = True\<rparr>]\<rparr>"

section \<open>Evaluating the model on concrete stores\<close>

lemma str_nat_less10: "n < 10 \<Longrightarrow> str_nat n = [digit_char n]"
  by (simp add: str_nat.simps)

lemma str_nat_ge10: "10 \<le> n \<Longrightarrow> str_nat n = str_nat (n div 10) @ [digit_char (n mod 10)]"
  by (subst str_nat.simps) simp

lemmas build_simps = build_defs add_component_def add_wire_def attach_def Let_def
  str_nat_less10 str_nat_ge10 digit_char_def numbered_def upt_conv_Cons connect_def

lemmas eval_defs = evaluate_def set_state_def toggle_def set_kind_def drive_def need_def
  andthen_def is_high_def set_pin_signal_def set_wire_signal_def from_bool_def world_of_def
  get_input_values_def py_range_def

lemmas pass_defs = evaluation_pass_def evaluate_component_def old_outputs_def
  outputs_changed_def get_output_pins_def propagate_signals_def propagate_def

section \<open>Propagation along one wire\<close>

lemma propagate_start_output:
  assumes "pin_type (pin_heap s (start_pin (wire_heap s w))) = OUTPUT"
  shows "propagate w s =
           set_pin_signal (end_pin (wire_heap s w)) (signal (pin_heap s (start_pin (wire_heap s w))))
             (set_wire_signal w (signal (pin_heap s (start_pin (wire_heap s w)))) s)"
  using assms by (simp add: propagate_def Let_def set_wire_signal_def)

lemma propagate_end_output:
  assumes "pin_type (pin_heap s (start_pin (wire_heap s w))) \<noteq> OUTPUT"
    and "pin_type (pin_heap s (end_pin (wire_heap s w))) = OUTPUT"
  shows "propagate w s =
           set_pin_signal (start_pin (wire_heap s w)) (signal (pin_heap s (end_pin (wire_heap s w))))
             (set_wire_signal w (signal (pin_heap s (end_pin (wire_heap s w)))) s)"
  using assms by (simp add: propagate_def Let_def set_wire_signal_def)

lemma propagate_no_output:
  assumes "pin_type (pin_heap s (start_pin (wire_heap s w))) \<noteq> OUTPUT"
    and "pin_type (pin_heap s (end_pin (wire_heap s w))) \<noteq> OUTPUT"
  shows "propagate w s = s"
  using assms by (simp add: propagate_def Let_def)

text \<open>
  C2, as the code has it. With \<open>a\<close> the start pin and \<open>b\<close> the end pin of wire \<open>w\<close>:
  when \<open>a\<close> is typed OUTPUT (whatever the type of \<open>b\<close>, so also when both are OUTPUT) the
  wire's cached signal and the signal of \<open>b\<close> become the signal of \<open>a\<close>; when \<open>a\<close> is not
  OUTPUT and \<open>b\<close> is, the cached signal and the signal of \<open>a\<close> become the signal of \<open>b\<close>;
  when neither is OUTPUT the whole store is unchanged. In every case no other pin and no
  other wire is written, and the source pin keeps its signal.
\<close>

theorem C2_propagate_direction:
  fixes s :: World and w :: nat
  defines "a \<equiv> start_pin (wire_heap s w)" and "b \<equiv> end_pin (wire_heap s w)"
  defines "s' \<equiv> propagate w s"
  shows "(pin_type (pin_heap s a) = OUTPUT \<longrightarrow>
            wire_signal (wire_heap s' w) = signal (pin_heap s a)
          \<and> signal (pin_heap s' b) = signal (pin_heap s a)
          \<and> signal (pin_heap s' a) = signal (pin_heap s a))
       \<and> (pin_type (pin_heap s a) \<noteq> OUTPUT \<and> pin_type (pin_heap s b) = OUTPUT \<longrightarrow>
            wire_signal (wire_heap s' w) = signal (pin_heap s b)
          \<and> signal (pin_heap s' a) = signal (pin_heap s b)
          \<and> signal (pin_heap s' b) = signal (pin_heap s b))
       \<and> (pin_type (pin_heap s a) \<noteq> OUTPUT \<and> pin_type (pin_heap s b) \<noteq> OUTPUT \<longrightarrow> s' = s)
       \<and> (\<forall>p. p \<noteq> a \<and> p \<noteq> b \<longrightarrow> pin_heap s' p = pin_heap s p)
       \<and> (\<forall>v. v \<noteq> w \<longrightarrow> wire_heap s' v = wire_heap s v)
       \<and> comp_heap s' = comp_heap s \<and> circuit s' = circuit s"
  unfolding a_def b_def s'_def
  by (simp add: propagate_def Let_def set_wire_signal_def set_pin_signal_def)

theorem C2_propagate_direction_witness:
  "wire_signal (wire_heap (propagate 0 two_outputs) 0) = from_bool True
   \<and> signal (pin_heap (propagate 0 two_outputs) 1) = from_bool True
   \<and> signal (pin_heap (propagate 0 two_outputs) 0) = from_bool True"
  using C2_propagate_direction [of two_outputs 0]
  by (simp add: two_outputs_def out_pin_def)

text \<open>
  C2 as the specification words it fails: with both endpoints typed OUTPUT the propagation
  is not a no-op. In \<open>two_outputs\<close> the end pin is LOW before and HIGH after, and the
  wire's cached signal changes from UNKNOWN to HIGH.
\<close>

theorem C2_both_output_counterexample:
  "pin_type (pin_heap two_outputs (start_pin (wire_heap two_outputs 0))) = OUTPUT
   \<and> pin_type (pin_heap two_outputs (end_pin (wire_heap two_outputs 0))) = OUTPUT
   \<and> state (signal (pin_heap two_outputs (end_pin (wire_heap two_outputs 0)))) = LOW
   \<and> state (signal (pin_heap (propagate 0 two_outputs) (end_pin (wire_heap two_outputs 0)))) = HIGH
   \<and> state (wire_signal (wire_heap two_outputs 0)) = UNKNOWN
   \<and> state (wire_signal (wire_heap (propagate 0 two_outputs) 0)) = HIGH"
  by (simp add: two_outputs_def out_pin_def propagate_def Let_def set_wire_signal_def
      set_pin_signal_def from_bool_def Signal_default_def)

section \<open>The wiring invariant under circuit mutation\<close>

lemma remove_wire_wires:
  "wires (circuit (remove_wire E wid s)) = AList.delete wid (wires (circuit s))"
proof (cases "map_of (wires (circuit s)) wid")
  case None
  then have "wid \<notin> fst ` set (wires (circuit s))" by (simp add: map_of_eq_None_iff)
  then have "AList.delete wid (wires (circuit s)) = wires (circuit s)"
    by (simp add: delete_id)
  with None show ?thesis by (simp add: remove_wire_def)
next
  case (Some w)
  then show ?thesis by (simp add: remove_wire_def Let_def detach_def)
qed

lemma remove_wire_frame:
  "comp_heap (remove_wire E wid s) = comp_heap s"
  "wire_heap (remove_wire E wid s) = wire_heap s"
  "components (circuit (remove_wire E wid s)) = components (circuit s)"
  by (simp_all add: remove_wire_def Let_def detach_def split: option.splits)

lemma fold_remove_wire_frame:
  "comp_heap (fold (remove_wire E) ids s) = comp_heap s"
  "wire_heap (fold (remove_wire E) ids s) = wire_heap s"
  "components (circuit (fold (remove_wire E) ids s)) = components (circuit s)"
  by (induction ids arbitrary: s) (simp_all add: remove_wire_frame)

lemma fold_remove_wire_wires:
  "wires (circuit (fold (remove_wire E) ids s)) =
     filter (\<lambda>(k, v). k \<notin> set ids) (wires (circuit s))"
proof (induction ids arbitrary: s)
  case Nil
  then show ?case by simp
next
  case (Cons i ids)
  have "filter (\<lambda>(k, v). k \<notin> set ids) (AList.delete i (wires (circuit s)))
        = filter (\<lambda>(k, v). k \<notin> set (i # ids)) (wires (circuit s))"
    by (auto simp: AList.delete_eq intro: filter_cong)
  with Cons show ?case by (simp add: remove_wire_wires)
qed

lemma remove_component_unknown:
  "cid \<notin> fst ` set (components (circuit s)) \<Longrightarrow> remove_component E cid s = s"
  using map_of_eq_None_iff [of "components (circuit s)" cid]
  by (simp add: remove_component_def)

lemma remove_wire_unknown:
  "wid \<notin> fst ` set (wires (circuit s)) \<Longrightarrow> remove_wire E wid s = s"
  using map_of_eq_None_iff [of "wires (circuit s)" wid]
  by (simp add: remove_wire_def)

lemma remove_component_wires:
  assumes "map_of (components (circuit s)) cid = Some c"
  shows "wires (circuit (remove_component E cid s)) =
           filter (\<lambda>(k, v). k \<notin> set (wires_to_remove E s c)) (wires (circuit s))"
    and "components (circuit (remove_component E cid s)) = AList.delete cid (components (circuit s))"
    and "comp_heap (remove_component E cid s) = comp_heap s"
    and "wire_heap (remove_component E cid s) = wire_heap s"
  using assms
  by (simp_all add: remove_component_def Let_def fold_remove_wire_wires fold_remove_wire_frame)

lemma pin_in_self: "p \<in> set qs \<Longrightarrow> pin_in E s p qs"
  by (auto simp: pin_in_def list_ex_iff)

lemma kept_wire_untouched:
  assumes "(k, w) \<in> set (wires (circuit s))" and "k \<notin> set (wires_to_remove E s c)"
  shows "start_pin (wire_heap s w) \<notin> snd ` set (pins (comp_heap s c))
       \<and> end_pin (wire_heap s w) \<notin> snd ` set (pins (comp_heap s c))"
proof -
  have "\<not> (pin_in E s (start_pin (wire_heap s w)) (map snd (pins (comp_heap s c)))
          \<or> pin_in E s (end_pin (wire_heap s w)) (map snd (pins (comp_heap s c))))"
    using assms by (force simp: wires_to_remove_def)
  then show ?thesis using pin_in_self [of _ "map snd (pins (comp_heap s c))" E s] by auto
qed

lemma remove_component_cascade:
  assumes "map_of (components (circuit s)) cid = Some c"
    and "(k, w) \<in> set (wires (circuit (remove_component E cid s)))"
  shows "start_pin (wire_heap s w) \<notin> snd ` set (pins (comp_heap s c))
       \<and> end_pin (wire_heap s w) \<notin> snd ` set (pins (comp_heap s c))"
  using assms kept_wire_untouched [of k w s E c]
  by (auto simp: remove_component_wires)

lemma circuit_pins_iff:
  "p \<in> set (circuit_pins s) \<longleftrightarrow>
     (\<exists>(k, c) \<in> set (components (circuit s)). p \<in> snd ` set (pins (comp_heap s c)))"
  by (auto simp: circuit_pins_def)

lemma remove_component_attached:
  assumes d: "dicts_ok s" and inv: "wires_attached s"
  shows "wires_attached (remove_component E cid s)"
proof (cases "map_of (components (circuit s)) cid")
  case None
  then show ?thesis using inv by (simp add: remove_component_def)
next
  case (Some c)
  let ?s' = "remove_component E cid s"
  have dist: "distinct (map fst (components (circuit s)))" using d by (simp add: dicts_ok_def)
  have keep: "p \<in> set (circuit_pins ?s')"
    if p: "p \<in> set (circuit_pins s)" and np: "p \<notin> snd ` set (pins (comp_heap s c))" for p
  proof -
    from p obtain k' c' where kc: "(k', c') \<in> set (components (circuit s))"
      and pc: "p \<in> snd ` set (pins (comp_heap s c'))"
      by (auto simp: circuit_pins_iff)
    have "c' \<noteq> c" using pc np by auto
    moreover have "(cid, c) \<in> set (components (circuit s))" using Some by (rule map_of_SomeD)
    ultimately have "k' \<noteq> cid" using dist kc by (auto dest: eq_key_imp_eq_value)
    then have "(k', c') \<in> set (AList.delete cid (components (circuit s)))"
      using kc by (auto simp: AList.delete_eq)
    then show ?thesis using pc
      by (auto simp: circuit_pins_iff remove_component_wires [OF Some])
  qed
  show ?thesis
    unfolding wires_attached_def list_all_iff
  proof (clarify)
    fix k w assume kw: "(k, w) \<in> set (wires (circuit ?s'))"
    then have in_s: "(k, w) \<in> set (wires (circuit s))"
      by (auto simp: remove_component_wires [OF Some])
    have att: "start_pin (wire_heap s w) \<in> set (circuit_pins s)
             \<and> end_pin (wire_heap s w) \<in> set (circuit_pins s)"
      using inv in_s by (auto simp: wires_attached_def list_all_iff)
    have unt: "start_pin (wire_heap s w) \<notin> snd ` set (pins (comp_heap s c))
             \<and> end_pin (wire_heap s w) \<notin> snd ` set (pins (comp_heap s c))"
      using remove_component_cascade [OF Some kw] .
    show "start_pin (wire_heap ?s' w) \<in> set (circuit_pins ?s')
        \<and> end_pin (wire_heap ?s' w) \<in> set (circuit_pins ?s')"
      using att unt keep by (simp add: remove_component_wires [OF Some])
  qed
qed

lemma set_update_subset:
  "x \<in> set (AList.update k v al) \<Longrightarrow> x = (k, v) \<or> x \<in> set al"
  by (induction al) (auto split: if_splits)

lemma set_update_keeps:
  "(a, b) \<in> set al \<Longrightarrow> a \<noteq> k \<Longrightarrow> (a, b) \<in> set (AList.update k v al)"
  by (induction al) auto

lemma set_update_new: "(k, v) \<in> set (AList.update k v al)"
  by (induction al) auto

lemma remove_wire_attached:
  assumes "wires_attached s"
  shows "wires_attached (remove_wire E wid s)"
proof -
  have "circuit_pins (remove_wire E wid s) = circuit_pins s"
    by (simp add: circuit_pins_def remove_wire_frame)
  then show ?thesis using assms
    by (auto simp: wires_attached_def list_all_iff remove_wire_wires remove_wire_frame
        AList.delete_eq)
qed

lemma remove_wire_dicts:
  assumes "dicts_ok s"
  shows "dicts_ok (remove_wire E wid s)"
  using assms
  by (simp add: dicts_ok_def remove_wire_wires remove_wire_frame distinct_delete)

lemma remove_component_dicts:
  assumes "dicts_ok s"
  shows "dicts_ok (remove_component E cid s)"
proof (cases "map_of (components (circuit s)) cid")
  case None
  then show ?thesis using assms by (simp add: remove_component_def)
next
  case (Some c)
  have "distinct (map fst (filter (\<lambda>(k, v). k \<notin> set (wires_to_remove E s c)) (wires (circuit s))))"
    using assms by (simp add: dicts_ok_def distinct_map_filter)
  then show ?thesis using assms
    by (simp add: dicts_ok_def remove_component_wires [OF Some] distinct_delete)
qed

lemma clear_ok: "wires_attached (clear s) \<and> dicts_ok (clear s)"
  by (simp add: wires_attached_def dicts_ok_def clear_def)

lemma add_component_fields:
  "components (circuit (add_component c s)) =
     AList.update (inserted_id s c) c (components (circuit s))"
  "wires (circuit (add_component c s)) = wires (circuit s)"
  "wire_heap (add_component c s) = wire_heap s"
  "pins (comp_heap (add_component c s) d) = pins (comp_heap s d)"
  by (simp_all add: add_component_def inserted_id_def Let_def)

lemma add_component_dicts:
  assumes "dicts_ok s"
  shows "dicts_ok (add_component c s)"
  using assms by (simp add: dicts_ok_def add_component_fields distinct_update)

lemma add_component_attached:
  assumes inv: "wires_attached s"
    and fresh: "map_of (components (circuit s)) (inserted_id s c) = None
              \<or> map_of (components (circuit s)) (inserted_id s c) = Some c"
    and d: "dicts_ok s"
  shows "wires_attached (add_component c s)"
proof -
  let ?k = "inserted_id s c"
  have sub: "p \<in> set (circuit_pins (add_component c s))" if "p \<in> set (circuit_pins s)" for p
  proof -
    from that obtain k' c' where kc: "(k', c') \<in> set (components (circuit s))"
      and pc: "p \<in> snd ` set (pins (comp_heap s c'))"
      by (auto simp: circuit_pins_iff)
    show ?thesis
    proof (cases "k' = ?k")
      case True
      then have "map_of (components (circuit s)) ?k = Some c'"
        using kc d by (simp add: dicts_ok_def)
      then have "c' = c" using fresh by simp
      then show ?thesis using pc set_update_new [of ?k c "components (circuit s)"]
        by (auto simp: circuit_pins_iff add_component_fields)
    next
      case False
      then have "(k', c') \<in> set (AList.update ?k c (components (circuit s)))"
        using kc by (simp add: set_update_keeps)
      then show ?thesis using pc
        by (auto simp: circuit_pins_iff add_component_fields)
    qed
  qed
  show ?thesis using inv sub
    by (auto simp: wires_attached_def list_all_iff add_component_fields)
qed

lemma add_wire_fields:
  "wires (circuit (add_wire w s)) = AList.update (inserted_wire_id s w) w (wires (circuit s))"
  "components (circuit (add_wire w s)) = components (circuit s)"
  "comp_heap (add_wire w s) = comp_heap s"
  "start_pin (wire_heap (add_wire w s) v) = start_pin (wire_heap s v)"
  "end_pin (wire_heap (add_wire w s) v) = end_pin (wire_heap s v)"
  by (simp_all add: add_wire_def inserted_wire_id_def Let_def attach_def)

lemma add_wire_dicts:
  assumes "dicts_ok s"
  shows "dicts_ok (add_wire w s)"
  using assms by (simp add: dicts_ok_def add_wire_fields distinct_update)

lemma add_wire_attached:
  assumes inv: "wires_attached s"
    and ends: "start_pin (wire_heap s w) \<in> set (circuit_pins s)"
              "end_pin (wire_heap s w) \<in> set (circuit_pins s)"
  shows "wires_attached (add_wire w s)"
proof -
  have cp: "circuit_pins (add_wire w s) = circuit_pins s"
    by (simp add: circuit_pins_def add_wire_fields)
  show ?thesis
    unfolding wires_attached_def list_all_iff
  proof (clarify)
    fix k v assume "(k, v) \<in> set (wires (circuit (add_wire w s)))"
    then have "(k, v) = (inserted_wire_id s w, w) \<or> (k, v) \<in> set (wires (circuit s))"
      using set_update_subset [of "(k, v)" "inserted_wire_id s w" w "wires (circuit s)"]
      by (simp add: add_wire_fields)
    then show "start_pin (wire_heap (add_wire w s) v) \<in> set (circuit_pins (add_wire w s))
             \<and> end_pin (wire_heap (add_wire w s) v) \<in> set (circuit_pins (add_wire w s))"
      using inv ends by (auto simp: cp add_wire_fields wires_attached_def list_all_iff)
  qed
qed

text \<open>
  C4, as the code has it. In a circuit whose wires all end on pins of components the circuit
  holds, the same is true after \<open>remove_component\<close>, after \<open>remove_wire\<close> and after \<open>clear\<close>;
  after \<open>add_component\<close> when the id it stores the component under is unused or already
  names that same object; and after \<open>add_wire\<close> when both endpoints of the new wire are pins
  of components the circuit holds. After \<open>remove_component\<close> no remaining wire touches a
  pin of the removed component. Removing an id that the circuit does not know returns the
  store unchanged.
\<close>

theorem C4_wires_attached_preserved:
  assumes d: "dicts_ok s" and inv: "wires_attached s"
  shows "wires_attached (remove_component E cid s)
       \<and> wires_attached (remove_wire E wid s)
       \<and> wires_attached (clear s)
       \<and> (map_of (components (circuit s)) (inserted_id s c) = None
            \<or> map_of (components (circuit s)) (inserted_id s c) = Some c
          \<longrightarrow> wires_attached (add_component c s))
       \<and> (start_pin (wire_heap s w) \<in> set (circuit_pins s)
            \<and> end_pin (wire_heap s w) \<in> set (circuit_pins s)
          \<longrightarrow> wires_attached (add_wire w s))
       \<and> dicts_ok (remove_component E cid s) \<and> dicts_ok (remove_wire E wid s)
       \<and> dicts_ok (clear s) \<and> dicts_ok (add_component c s) \<and> dicts_ok (add_wire w s)
       \<and> (\<forall>c' k v. map_of (components (circuit s)) cid = Some c'
              \<and> (k, v) \<in> set (wires (circuit (remove_component E cid s)))
            \<longrightarrow> start_pin (wire_heap (remove_component E cid s) v)
                  \<notin> snd ` set (pins (comp_heap s c'))
              \<and> end_pin (wire_heap (remove_component E cid s) v)
                  \<notin> snd ` set (pins (comp_heap s c')))
       \<and> (cid \<notin> fst ` set (components (circuit s)) \<longrightarrow> remove_component E cid s = s)
       \<and> (wid \<notin> fst ` set (wires (circuit s)) \<longrightarrow> remove_wire E wid s = s)"
proof -
  have cascade: "start_pin (wire_heap (remove_component E cid s) v)
                   \<notin> snd ` set (pins (comp_heap s c'))
               \<and> end_pin (wire_heap (remove_component E cid s) v)
                   \<notin> snd ` set (pins (comp_heap s c'))"
    if "map_of (components (circuit s)) cid = Some c'"
      and "(k, v) \<in> set (wires (circuit (remove_component E cid s)))" for c' k v
    using remove_component_cascade [OF that] by (simp add: remove_component_wires [OF that(1)])
  have unk: "cid \<notin> fst ` set (components (circuit s)) \<longrightarrow> remove_component E cid s = s"
    "wid \<notin> fst ` set (wires (circuit s)) \<longrightarrow> remove_wire E wid s = s"
    by (simp_all add: remove_component_unknown remove_wire_unknown)
  have addc: "map_of (components (circuit s)) (inserted_id s c) = None
            \<or> map_of (components (circuit s)) (inserted_id s c) = Some c
          \<longrightarrow> wires_attached (add_component c s)"
    using add_component_attached [OF inv _ d] by blast
  have addw: "start_pin (wire_heap s w) \<in> set (circuit_pins s)
            \<and> end_pin (wire_heap s w) \<in> set (circuit_pins s)
          \<longrightarrow> wires_attached (add_wire w s)"
    using add_wire_attached [OF inv] by blast
  have casc: "\<forall>c' k v. map_of (components (circuit s)) cid = Some c'
              \<and> (k, v) \<in> set (wires (circuit (remove_component E cid s)))
            \<longrightarrow> start_pin (wire_heap (remove_component E cid s) v)
                  \<notin> snd ` set (pins (comp_heap s c'))
              \<and> end_pin (wire_heap (remove_component E cid s) v)
                  \<notin> snd ` set (pins (comp_heap s c'))"
    using cascade by blast
  show ?thesis
    using remove_component_attached [OF d inv, of E cid] remove_wire_attached [OF inv, of E wid]
      clear_ok [of s] addc addw remove_component_dicts [OF d, of E cid]
      remove_wire_dicts [OF d, of E wid] add_component_dicts [OF d, of c]
      add_wire_dicts [OF d, of w] casc unk
    by (intro conjI) (elim conjE, assumption)+
qed

text \<open>
  The circuit of the test suite's file test: a switch \<open>s1\<close>, an LED \<open>led1\<close> and the wire
  \<open>w1\<close> between them. Removing \<open>s1\<close> removes the wire; removing the unknown ids \<open>s2\<close> and
  \<open>w2\<close> changes nothing.
\<close>

theorem C4_wires_attached_preserved_witness:
  "dicts_ok switch_led \<and> wires_attached switch_led
   \<and> wires_attached (remove_component E0 ''s1'' switch_led)
   \<and> wires (circuit (remove_component E0 ''s1'' switch_led)) = []
   \<and> remove_component E0 ''s2'' switch_led = switch_led
   \<and> remove_wire E0 ''w2'' switch_led = switch_led"
proof -
  have h: "dicts_ok switch_led" "wires_attached switch_led"
    by (simp_all add: wires_attached_def dicts_ok_def circuit_pins_def add_wire_def attach_def
        add_component_def switch_led_def loose_parts_def build_defs)
  have k: "''s2'' \<notin> fst ` set (components (circuit switch_led))"
    "''w2'' \<notin> fst ` set (wires (circuit switch_led))"
    by (simp_all add: add_wire_def attach_def add_component_def switch_led_def
        loose_parts_def build_defs)
  have e: "wires (circuit (remove_component E0 ''s1'' switch_led)) = []"
    by (simp add: remove_component_def remove_wire_def detach_def wires_to_remove_def
        pin_in_def E0_def add_wire_def attach_def add_component_def switch_led_def
        loose_parts_def build_defs)
  show ?thesis
    using C4_wires_attached_preserved [OF h, of E0 "''s1''" "''w2''" 0 0] h k e
      C4_wires_attached_preserved [OF h, of E0 "''s2''" "''w2''" 0 0]
    by simp
qed

text \<open>
  C4 as the specification words it fails for \<open>add_wire\<close>, which stores any wire without
  looking at its endpoints: in \<open>loose_parts\<close> the circuit is empty, the invariant holds,
  and adding the wire between the two components that were never added breaks it.
\<close>

theorem C4_add_wire_counterexample:
  "wires_attached loose_parts \<and> dicts_ok loose_parts
   \<and> \<not> wires_attached (add_wire 0 loose_parts)"
  by (simp add: wires_attached_def dicts_ok_def circuit_pins_def add_wire_def attach_def
      loose_parts_def build_defs)

section \<open>Reset\<close>

lemma fold_set_pin_signal:
  "pin_heap (fold (\<lambda>p. set_pin_signal p sg) ps s) q =
     (if q \<in> set ps then (pin_heap s q)\<lparr>signal := sg\<rparr> else pin_heap s q)"
  "comp_heap (fold (\<lambda>p. set_pin_signal p sg) ps s) = comp_heap s"
  "wire_heap (fold (\<lambda>p. set_pin_signal p sg) ps s) = wire_heap s"
  "circuit (fold (\<lambda>p. set_pin_signal p sg) ps s) = circuit s"
  "printed (fold (\<lambda>p. set_pin_signal p sg) ps s) = printed s"
  by (induction ps arbitrary: s) (auto simp: set_pin_signal_def)

lemma fold_set_wire_signal:
  "wire_heap (fold (\<lambda>w. set_wire_signal w sg) ws s) v =
     (if v \<in> set ws then (wire_heap s v)\<lparr>wire_signal := sg\<rparr> else wire_heap s v)"
  "comp_heap (fold (\<lambda>w. set_wire_signal w sg) ws s) = comp_heap s"
  "pin_heap (fold (\<lambda>w. set_wire_signal w sg) ws s) = pin_heap s"
  "circuit (fold (\<lambda>w. set_wire_signal w sg) ws s) = circuit s"
  "printed (fold (\<lambda>w. set_wire_signal w sg) ws s) = printed s"
  by (induction ws arbitrary: s) (auto simp: set_wire_signal_def)

lemma reset_pins_eq:
  "reset_pins s = fold (\<lambda>p. set_pin_signal p Signal_default) (circuit_pins s) s"
proof -
  have "fold (\<lambda>c. fold (\<lambda>p. set_pin_signal p Signal_default) (f c)) cs t
        = fold (\<lambda>p. set_pin_signal p Signal_default) (concat (map f cs)) t"
    for f :: "nat \<Rightarrow> nat list" and cs t
    by (induction cs arbitrary: t) simp_all
  from this [of "\<lambda>c. map snd (pins (comp_heap s c))" "map snd (components (circuit s))" s]
  show ?thesis
    by (simp add: reset_pins_def circuit_pins_def comp_def case_prod_unfold)
qed

text \<open>
  C9. \<open>reset()\<close> sets the tick count to zero and empties the queue and the set of evaluated
  components; afterwards every pin of every component of the circuit and every wire of the
  circuit carries the default signal, whose state is UNKNOWN. No component object is
  written, so whatever a component remembers (the state of a switch, the bit of a flip-flop
  or latch, the value of a register, the last clock level) is as before; of a pin or wire
  only the signal changes, and pins and wires outside the circuit are untouched.
\<close>

theorem C9_reset_clears_signals_only:
  "case reset (e, s) of (e', s') \<Rightarrow>
     tick_count e' = 0 \<and> propagation_queue e' = [] \<and> evaluated_components e' = {}
   \<and> running e' = running e
   \<and> (\<forall>p \<in> set (circuit_pins s).
         signal (pin_heap s' p) = Signal_default \<and> state (signal (pin_heap s' p)) = UNKNOWN)
   \<and> (\<forall>w \<in> snd ` set (wires (circuit s)).
         wire_signal (wire_heap s' w) = Signal_default
       \<and> state (wire_signal (wire_heap s' w)) = UNKNOWN)
   \<and> comp_heap s' = comp_heap s
   \<and> circuit s' = circuit s
   \<and> (\<forall>p. pin_heap s' p = (pin_heap s p)\<lparr>signal := signal (pin_heap s' p)\<rparr>)
   \<and> (\<forall>p. p \<notin> set (circuit_pins s) \<longrightarrow> pin_heap s' p = pin_heap s p)
   \<and> (\<forall>w. wire_heap s' w = (wire_heap s w)\<lparr>wire_signal := wire_signal (wire_heap s' w)\<rparr>)
   \<and> (\<forall>w. w \<notin> snd ` set (wires (circuit s)) \<longrightarrow> wire_heap s' w = wire_heap s w)"
  by (simp add: reset_def reset_wires_def reset_pins_eq fold_set_pin_signal
      fold_set_wire_signal Signal_default_def)

text \<open>
  In \<open>both_on\<close> the first switch is on and drives its pin HIGH; after \<open>reset\<close> the pin is
  UNKNOWN and the switch is still on.
\<close>

lemma both_on_facts:
  "state (signal (pin_heap both_on 0)) = HIGH"
  "kind (comp_heap both_on 0) = Switch True"
  "0 \<in> set (circuit_pins both_on)"
  by (simp_all add: circuit_pins_def both_on_def and_circuit_def and_parts_def build_simps eval_defs)

theorem C9_reset_clears_signals_only_witness:
  "state (signal (pin_heap both_on 0)) = HIGH
   \<and> kind (comp_heap both_on 0) = Switch True
   \<and> state (signal (pin_heap (snd (reset (SimulationEngine_init, both_on))) 0)) = UNKNOWN
   \<and> kind (comp_heap (snd (reset (SimulationEngine_init, both_on))) 0) = Switch True
   \<and> tick_count (fst (reset (SimulationEngine_init, both_on))) = 0"
  using C9_reset_clears_signals_only [of SimulationEngine_init both_on] both_on_facts
  by (auto simp: case_prod_unfold)

section \<open>What an evaluation writes\<close>

lemma same_but_refl: "same_but c s s"
  by (simp add: same_but_def)

lemma same_but_pins: "same_but c s s' \<Longrightarrow> pins (comp_heap s' d) = pins (comp_heap s d)"
  unfolding same_but_def
  by (cases "d = c") (auto elim: ssubst)

lemma same_but_trans:
  assumes "same_but c s s1" and "same_but c s1 s2"
  shows "same_but c s s2"
proof -
  have p: "pins (comp_heap s1 c) = pins (comp_heap s c)" using assms(1) by (rule same_but_pins)
  have a: "\<forall>q. pin_heap s1 q = (pin_heap s q)\<lparr>signal := signal (pin_heap s1 q)\<rparr>"
    and b: "\<forall>q. pin_heap s2 q = (pin_heap s1 q)\<lparr>signal := signal (pin_heap s2 q)\<rparr>"
    and c1: "comp_heap s1 c = (comp_heap s c)\<lparr>kind := kind (comp_heap s1 c)\<rparr>"
    and c2: "comp_heap s2 c = (comp_heap s1 c)\<lparr>kind := kind (comp_heap s2 c)\<rparr>"
    using assms by (auto simp: same_but_def)
  have pin: "pin_heap s2 q = (pin_heap s q)\<lparr>signal := signal (pin_heap s2 q)\<rparr>" for q
    by (subst b [rule_format], subst a [rule_format]) simp
  have comp: "comp_heap s2 c = (comp_heap s c)\<lparr>kind := kind (comp_heap s2 c)\<rparr>"
    by (subst c2, subst c1) simp
  show ?thesis
    using assms pin comp unfolding same_but_def p by auto
qed

lemma ev_ok_Inl [simp]: "ev_ok c s (Inl s') = same_but c s s'"
  and ev_ok_Inr [simp]: "ev_ok c s (Inr s') = same_but c s s'"
  by (simp_all add: ev_ok_def world_of_def)

lemma ev_ok_need:
  assumes "\<And>x. v = Some x \<Longrightarrow> ev_ok c s (f x)"
  shows "ev_ok c s (need v s f)"
  using assms by (cases v) (simp_all add: need_def same_but_refl)

lemma ev_ok_andthen:
  assumes "ev_ok c s r" and "\<And>s1. r = Inr s1 \<Longrightarrow> ev_ok c s1 (f s1)"
  shows "ev_ok c s (andthen r f)"
proof (cases r)
  case (Inl a)
  then show ?thesis using assms(1) by (simp add: andthen_def)
next
  case (Inr s1)
  then have "same_but c s s1" "ev_ok c s1 (f s1)" using assms by simp_all
  then show ?thesis using Inr
    by (cases "f s1") (auto simp: andthen_def intro: same_but_trans)
qed

lemma same_but_set_kind: "same_but c s (set_kind c k s)"
  by (simp add: same_but_def set_kind_def)

lemma ev_ok_set_kind:
  assumes "ev_ok c (set_kind c k s) r"
  shows "ev_ok c s r"
  using assms same_but_set_kind [of c s k]
  by (auto simp: ev_ok_def intro: same_but_trans)

lemma same_but_set_pin:
  assumes "get_pin s c nm = Some p"
  shows "same_but c s (set_pin_signal p sg s)"
proof -
  have "p \<in> snd ` set (pins (comp_heap s c))"
    using assms by (force simp: get_pin_def dest: map_of_SomeD)
  then show ?thesis by (auto simp: same_but_def set_pin_signal_def)
qed

lemma ev_ok_drive: "ev_ok c s (drive c nm b s)"
  unfolding drive_def
  by (rule ev_ok_need) (simp add: same_but_set_pin)

lemma get_pin_same_but: "same_but c s s' \<Longrightarrow> get_pin s' d nm = get_pin s d nm"
  by (simp add: get_pin_def same_but_pins)

lemma ev_ok_drive_all: "ev_ok c s (drive_all c pre f is s)"
proof (induction "is" arbitrary: s)
  case Nil
  then show ?case by (simp add: same_but_refl)
next
  case (Cons i "is")
  show ?case
    by (simp, rule ev_ok_andthen, rule ev_ok_drive, rule Cons.IH)
qed

lemma ev_ok_drive_Q: "ev_ok c s (drive_Q c st s)"
  unfolding drive_Q_def
  by (rule ev_ok_andthen, rule ev_ok_drive, rule ev_ok_drive)

lemmas ev_ok_intros = ev_ok_need ev_ok_andthen ev_ok_drive ev_ok_drive_all ev_ok_drive_Q

lemma ev_ok_evaluate_kind: "ev_ok c s (evaluate_kind k c s)"
proof (cases k)
  case (LED x)
  then show ?thesis by (auto intro!: ev_ok_need simp: same_but_set_kind)
next
  case (OutputPin x)
  then show ?thesis by (auto intro!: ev_ok_need simp: same_but_set_kind)
next
  case (Clock st tc fr)
  then show ?thesis by (auto intro!: ev_ok_set_kind [OF ev_ok_drive])
next
  case (DFlipFlop st lc)
  then show ?thesis
    by (auto intro!: ev_ok_need ev_ok_set_kind [OF ev_ok_drive_Q]
        ev_ok_set_kind [OF ev_ok_need] simp: Let_def)
next
  case (JKFlipFlop st lc)
  then show ?thesis
    by (auto intro!: ev_ok_need ev_ok_set_kind [OF ev_ok_drive_Q] simp: Let_def)
next
  case (SRLatch st)
  then show ?thesis
    by (auto intro!: ev_ok_need ev_ok_set_kind [OF ev_ok_drive_Q] simp: Let_def)
next
  case (Register bw v lc)
  then show ?thesis
    by (auto intro!: ev_ok_need ev_ok_set_kind [OF ev_ok_drive_all]
        simp: same_but_set_kind split: prod.splits)
next
  case (Multiplexer n ns)
  then show ?thesis
    by (auto intro!: ev_ok_need ev_ok_drive simp: same_but_refl same_but_set_pin split: prod.splits)
next
  case (Decoder n no)
  then show ?thesis
    by (auto intro!: ev_ok_drive_all simp: same_but_refl split: prod.splits)
next
  case (Comparator bw)
  then show ?thesis
    by (auto intro!: ev_ok_andthen ev_ok_drive simp: same_but_refl split: prod.splits)
qed (auto intro!: ev_ok_need ev_ok_andthen ev_ok_drive simp: Let_def)

lemma same_but_evaluate: "same_but c s (world_of (evaluate c s))"
  using ev_ok_evaluate_kind [of c s "kind (comp_heap s c)"]
  by (simp add: ev_ok_def evaluate_def)

lemma fold_propagate_printed: "printed (fold propagate ws s) = printed s"
  by (induction ws arbitrary: s)
     (simp_all add: propagate_def Let_def set_wire_signal_def set_pin_signal_def)

lemma propagate_signals_printed: "printed (propagate_signals s) = printed s"
  by (simp add: propagate_signals_def fold_propagate_printed)

section \<open>One simulation step\<close>

lemma pass_n_shift: "pass_n (Suc k) s = pass_n k (fst (evaluation_pass s))"
  by (induction k) simp_all

lemma pass_changed_shift: "pass_changed (Suc j) s = pass_changed j (fst (evaluation_pass s))"
  by (simp add: pass_changed_def pass_n_shift del: pass_n.simps)

lemma evaluate_loop_passes:
  "\<exists>d. evaluate_loop N i t = (pass_n d t, i + int d)
     \<and> (\<forall>j. j + 1 < d \<longrightarrow> pass_changed j t)
     \<and> (i + int d < N \<longrightarrow> 0 < d \<and> \<not> pass_changed (d - 1) t)
     \<and> (i + int d \<le> N \<or> d = 0)"
proof (induction N i t rule: evaluate_loop.induct)
  case (1 N i t)
  show ?case
  proof (cases "i < N")
    case False
    then have "evaluate_loop N i t = (t, i)" by (simp add: evaluate_loop.simps)
    then show ?thesis using False by (intro exI [of _ 0]) simp
  next
    case True
    obtain t' ch where p: "evaluation_pass t = (t', ch)" by (cases "evaluation_pass t")
    show ?thesis
    proof (cases ch)
      case False
      then have "evaluate_loop N i t = (t', i + 1)"
        using True p by (simp add: evaluate_loop.simps [of N i t])
      then show ?thesis using True p False
        by (intro exI [of _ 1]) (simp add: pass_changed_def)
    next
      case ch: True
      from "1.IH" [OF True p [symmetric]] ch
      obtain d where d: "evaluate_loop N (i + 1) t' = (pass_n d t', i + 1 + int d)"
        "\<forall>j. j + 1 < d \<longrightarrow> pass_changed j t'"
        "i + 1 + int d < N \<longrightarrow> 0 < d \<and> \<not> pass_changed (d - 1) t'"
        "i + 1 + int d \<le> N \<or> d = 0"
        by auto
      have t': "t' = fst (evaluation_pass t)" using p by simp
      have loop1: "evaluate_loop N i t = evaluate_loop N (i + 1) t'"
        using True p ch by (simp add: evaluate_loop.simps [of N i t])
      have shift: "pass_n (Suc d) t = pass_n d t'"
        by (simp add: pass_n_shift p del: pass_n.simps)
      have loop: "evaluate_loop N i t = (pass_n (Suc d) t, i + int (Suc d))"
        unfolding loop1 d(1) shift by simp
      have ch0: "pass_changed 0 t" using p ch by (simp add: pass_changed_def)
      have all: "\<forall>j. j + 1 < Suc d \<longrightarrow> pass_changed j t"
      proof (intro allI impI)
        fix j assume "j + 1 < Suc d"
        then show "pass_changed j t"
          using d(2) ch0 by (cases j) (auto simp: pass_changed_shift t')
      qed
      have stop: "i + int (Suc d) < N \<longrightarrow> 0 < Suc d \<and> \<not> pass_changed (Suc d - 1) t"
      proof
        assume "i + int (Suc d) < N"
        then have "0 < d \<and> \<not> pass_changed (d - 1) t'" using d(3) by simp
        then show "0 < Suc d \<and> \<not> pass_changed (Suc d - 1) t"
          by (cases d) (auto simp: pass_changed_shift t')
      qed
      have bound: "i + int (Suc d) \<le> N \<or> Suc d = 0" using d(4) True by auto
      show ?thesis using loop all stop bound by blast
    qed
  qed
qed











section \<open>A clock in the evaluation loop\<close>

lemma clock_evaluate:
  assumes "clock_free s c p st"
  shows "\<exists>s'. evaluate c s = Inr s'
           \<and> kind (comp_heap s' c) = Clock (\<not> st) 0 1
           \<and> signal (pin_heap s' p) = from_bool (\<not> st)
           \<and> state (signal (pin_heap s' p)) \<noteq> state (signal (pin_heap s p))
           \<and> clock_free s' c p (\<not> st)
           \<and> outputs_changed (old_outputs s c) s' c"
  using assms
  by (auto simp: clock_free_def evaluate_def drive_def need_def get_pin_def set_kind_def
      set_pin_signal_def from_bool_def outputs_changed_def old_outputs_def get_output_pins_def)

lemma clock_component:
  assumes "clock_free s c p st"
  shows "snd (evaluate_component c (s, ch))
       \<and> clock_free (fst (evaluate_component c (s, ch))) c p (\<not> st)
       \<and> same_but c s (fst (evaluate_component c (s, ch)))"
proof -
  from clock_evaluate [OF assms] obtain s' where s': "evaluate c s = Inr s'"
    "clock_free s' c p (\<not> st)" "outputs_changed (old_outputs s c) s' c"
    by blast
  have "same_but c s s'" using same_but_evaluate [of c s] s'(1) by (simp add: world_of_def)
  then show ?thesis using s' by (simp add: evaluate_component_def Let_def)
qed

lemma same_but_printed:
  "same_but c s s' \<Longrightarrow> same_but c s (s'\<lparr>printed := x\<rparr>)"
  by (simp add: same_but_def)

lemma component_frame:
  "same_but d s (fst (evaluate_component d (s, ch)))"
  "ch \<Longrightarrow> snd (evaluate_component d (s, ch))"
  using same_but_evaluate [of d s]
  by (auto simp: evaluate_component_def Let_def world_of_def same_but_def split: sum.splits)

lemma clock_free_same_but:
  assumes "clock_free s c p st" and "same_but d s s'" and "d \<noteq> c"
    and "p \<notin> snd ` set (pins (comp_heap s d))"
  shows "clock_free s' c p st"
  using assms unfolding clock_free_def same_but_def by auto

lemma fold_components:
  assumes "clock_free s c p st"
    and "\<forall>d \<in> set cs. d \<noteq> c \<longrightarrow> p \<notin> snd ` set (pins (comp_heap s d))"
  shows "clock_free (fst (fold evaluate_component cs (s, ch))) c p (st \<noteq> odd (count_list cs c))
       \<and> (ch \<or> c \<in> set cs \<longrightarrow> snd (fold evaluate_component cs (s, ch)))
       \<and> (\<forall>d. pins (comp_heap (fst (fold evaluate_component cs (s, ch))) d) = pins (comp_heap s d))
       \<and> (\<forall>q. pin_type (pin_heap (fst (fold evaluate_component cs (s, ch))) q)
                = pin_type (pin_heap s q))
       \<and> wire_heap (fst (fold evaluate_component cs (s, ch))) = wire_heap s
       \<and> circuit (fst (fold evaluate_component cs (s, ch))) = circuit s"
  using assms
proof (induction cs arbitrary: s ch st)
  case Nil
  then show ?case by simp
next
  case (Cons d cs)
  obtain s1 ch1 where e: "evaluate_component d (s, ch) = (s1, ch1)"
    by (cases "evaluate_component d (s, ch)")
  have fr: "same_but d s s1" using component_frame(1) [of d s ch] e by simp
  have pins1: "pins (comp_heap s1 x) = pins (comp_heap s x)" for x
    using fr by (rule same_but_pins)
  have iso1: "\<forall>x \<in> set cs. x \<noteq> c \<longrightarrow> p \<notin> snd ` set (pins (comp_heap s1 x))"
    using Cons.prems(2) by (simp add: pins1)
  have wc: "wire_heap s1 = wire_heap s" "circuit s1 = circuit s"
    using fr by (simp_all add: same_but_def)
  have ty: "pin_type (pin_heap s1 q) = pin_type (pin_heap s q)" for q
  proof -
    have "pin_heap s1 q = (pin_heap s q)\<lparr>signal := signal (pin_heap s1 q)\<rparr>"
      using fr by (simp add: same_but_def)
    then show ?thesis by (metis Pin.select_convs(2) Pin.surjective Pin.update_convs(3))
  qed
  show ?case
  proof (cases "d = c")
    case True
    have c1: "clock_free s1 c p (\<not> st)" "ch1"
      using clock_component [OF Cons.prems(1), of ch] e True by simp_all
    from Cons.IH [OF c1(1) iso1, of ch1] c1(2) True e pins1 wc ty
    show ?thesis by auto
  next
    case False
    have c1: "clock_free s1 c p st"
      using clock_free_same_but [OF Cons.prems(1) fr False] Cons.prems(2) False by simp
    have m: "ch \<longrightarrow> ch1" using component_frame(2) [of ch d s] e by auto
    from Cons.IH [OF c1 iso1, of ch1] m False e pins1 wc ty
    show ?thesis by auto
  qed
qed

lemma free_running_pass:
  assumes "free_running s c p st"
  shows "snd (evaluation_pass s) \<and> free_running (fst (evaluation_pass s)) c p (\<not> st)"
proof -
  let ?cs = "map snd (components (circuit s))"
  have a: "clock_free s c p st" "count_list ?cs c = 1"
    "\<forall>d \<in> set ?cs. d \<noteq> c \<longrightarrow> p \<notin> snd ` set (pins (comp_heap s d))"
    using assms by (auto simp: free_running_def)
  have mem: "c \<in> set ?cs" using a(2) count_list_0_iff [of ?cs c] by auto
  from fold_components [OF a(1) a(3), of False] a(2) mem assms
  show ?thesis
    by (auto simp: evaluation_pass_def free_running_def)
qed

lemma free_running_pass_n:
  assumes "free_running s c p st"
  shows "free_running (pass_n k s) c p (st \<noteq> odd k) \<and> pass_changed k s"
proof (induction k)
  case 0
  then show ?case using assms free_running_pass [OF assms] by (simp add: pass_changed_def)
next
  case (Suc k)
  then have f: "free_running (pass_n k s) c p (st \<noteq> odd k)" by simp
  have g: "free_running (pass_n (Suc k) s) c p (st \<noteq> odd (Suc k))"
    using free_running_pass [OF f] by (auto simp: neq_commute)
  show ?case using g free_running_pass [OF g] by (simp add: pass_changed_def)
qed

lemma free_running_loop:
  assumes "free_running s c p st"
  shows "evaluate_loop N 0 s = (pass_n (nat N) s, max N 0)"
proof -
  from evaluate_loop_passes [of N 0 s]
  obtain d where d: "evaluate_loop N 0 s = (pass_n d s, int d)"
    "int d < N \<longrightarrow> 0 < d \<and> \<not> pass_changed (d - 1) s" "int d \<le> N \<or> d = 0"
    by auto
  have "\<not> int d < N" using d(2) free_running_pass_n [OF assms] by blast
  then have "d = nat N" using d(3) by auto
  then show ?thesis using d(1) by auto
qed

lemma propagate_frame:
  "pin_type (pin_heap (propagate w s) q) = pin_type (pin_heap s q)"
  "start_pin (wire_heap (propagate w s) v) = start_pin (wire_heap s v)"
  "end_pin (wire_heap (propagate w s) v) = end_pin (wire_heap s v)"
  "comp_heap (propagate w s) = comp_heap s"
  "circuit (propagate w s) = circuit s"
  by (simp_all add: propagate_def Let_def set_wire_signal_def set_pin_signal_def)

lemma propagate_other_pin:
  assumes "pin_type (pin_heap s p) = OUTPUT"
    and "end_pin (wire_heap s w) = p \<longrightarrow> pin_type (pin_heap s (start_pin (wire_heap s w))) \<noteq> OUTPUT"
  shows "signal (pin_heap (propagate w s) p) = signal (pin_heap s p)"
  using assms
  by (auto simp: propagate_def Let_def set_wire_signal_def set_pin_signal_def)

lemma free_running_propagate:
  assumes "free_running s c p st"
    and "end_pin (wire_heap s w) = p \<longrightarrow> pin_type (pin_heap s (start_pin (wire_heap s w))) \<noteq> OUTPUT"
  shows "free_running (propagate w s) c p st"
proof -
  have ty: "pin_type (pin_heap s p) = OUTPUT"
    using assms(1) by (simp add: free_running_def clock_free_def)
  show ?thesis
    using assms(1) propagate_other_pin [OF ty assms(2)]
    by (simp add: free_running_def clock_free_def propagate_frame)
qed

lemma free_running_fold_propagate:
  assumes "free_running s c p st"
    and "\<forall>w \<in> set ws. end_pin (wire_heap s w) = p
           \<longrightarrow> pin_type (pin_heap s (start_pin (wire_heap s w))) \<noteq> OUTPUT"
  shows "free_running (fold propagate ws s) c p st"
  using assms
proof (induction ws arbitrary: s)
  case Nil
  then show ?case by simp
next
  case (Cons w ws)
  have "free_running (propagate w s) c p st"
    using free_running_propagate [OF Cons.prems(1), of w] Cons.prems(2) by simp
  then show ?case using Cons.IH [of "propagate w s"] Cons.prems(2) by (simp add: propagate_frame)
qed

lemma free_running_propagate_signals:
  assumes "free_running s c p st"
  shows "free_running (propagate_signals s) c p st"
  unfolding propagate_signals_def
  using assms by (intro free_running_fold_propagate) (auto simp: free_running_def)

lemma free_running_printed:
  "free_running (s\<lparr>printed := x\<rparr>) c p st = free_running s c p st"
  by (simp add: free_running_def clock_free_def)

lemma clock_shape_evaluate:
  assumes "clock_shape s c p st"
  shows "\<exists>s'. evaluate c s = Inr s'
           \<and> kind (comp_heap s' c) = Clock (\<not> st) 0 1
           \<and> signal (pin_heap s' p) = from_bool (\<not> st)
           \<and> (\<forall>q. q \<noteq> p \<longrightarrow> pin_heap s' q = pin_heap s q)
           \<and> ((state (signal (pin_heap s' p)) \<noteq> state (signal (pin_heap s p)))
                = (state (signal (pin_heap s p)) \<noteq> state (from_bool (\<not> st))))"
  using assms
  by (auto simp: clock_shape_def evaluate_def drive_def need_def get_pin_def set_kind_def
      set_pin_signal_def)

text \<open>
  C10, as the code has it. An evaluation of a clock with frequency 1, a tick count that is
  not negative and a pin \<open>out\<close> completes, toggles the clock's state, sets the tick count to
  0 and drives the pin with the new state, writing no other pin; the state of the pin
  changes exactly when the pin did not already hold the new state.

  Take such a clock whose only pin is \<open>out\<close>, typed OUTPUT, that the circuit holds once,
  whose pin belongs to no other component of the circuit, is the end pin of no wire of the
  circuit that starts at a pin typed OUTPUT, and does not already hold the state that the
  next evaluation will drive (so a clock freshly built, or after \<open>reset()\<close>, or after any
  evaluation of the clock). Then every full pass sets \<open>changed\<close> and leaves the clock in the
  same situation with its state toggled; so a step runs exactly the maximum number of
  passes and prints the warning, the clock has toggled once per pass, and the same holds
  for the next step.
\<close>

theorem C10_free_running_clock:
  "(clock_shape s c p st \<longrightarrow>
      (\<exists>s'. evaluate c s = Inr s'
           \<and> kind (comp_heap s' c) = Clock (\<not> st) 0 1
           \<and> signal (pin_heap s' p) = from_bool (\<not> st)
           \<and> (\<forall>q. q \<noteq> p \<longrightarrow> pin_heap s' q = pin_heap s q)
           \<and> ((state (signal (pin_heap s' p)) \<noteq> state (signal (pin_heap s p)))
                = (state (signal (pin_heap s p)) \<noteq> state (from_bool (\<not> st))))))
   \<and> (free_running s c p st \<longrightarrow>
        clock_shape s c p st
      \<and> snd (evaluation_pass s)
      \<and> free_running (fst (evaluation_pass s)) c p (\<not> st)
      \<and> (\<forall>k. pass_changed k (propagate_signals s))
      \<and> (\<forall>k. free_running (pass_n k (propagate_signals s)) c p (st \<noteq> odd k))
      \<and> snd (step N (e, s)) =
           propagate_signals
             ((pass_n (nat N) (propagate_signals s))
                \<lparr>printed := printed (pass_n (nat N) (propagate_signals s))
                             @ [ConvergenceWarning N]\<rparr>)
      \<and> free_running (snd (step N (e, s))) c p (st \<noteq> odd (nat N)))"
proof (intro conjI impI)
  assume "clock_shape s c p st"
  then show "\<exists>s'. evaluate c s = Inr s'
           \<and> kind (comp_heap s' c) = Clock (\<not> st) 0 1
           \<and> signal (pin_heap s' p) = from_bool (\<not> st)
           \<and> (\<forall>q. q \<noteq> p \<longrightarrow> pin_heap s' q = pin_heap s q)
           \<and> ((state (signal (pin_heap s' p)) \<noteq> state (signal (pin_heap s p)))
                = (state (signal (pin_heap s p)) \<noteq> state (from_bool (\<not> st))))"
    by (rule clock_shape_evaluate)
next
  assume fr: "free_running s c p st"
  let ?s1 = "propagate_signals s"
  have f1: "free_running ?s1 c p st" using fr by (rule free_running_propagate_signals)
  have loop: "evaluate_loop N 0 ?s1 = (pass_n (nat N) ?s1, max N 0)"
    using f1 by (rule free_running_loop)
  have st: "snd (step N (e, s)) =
           propagate_signals
             ((pass_n (nat N) ?s1)
                \<lparr>printed := printed (pass_n (nat N) ?s1) @ [ConvergenceWarning N]\<rparr>)"
    by (simp add: step_def evaluate_circuit_def loop)
  have f2: "free_running (pass_n k ?s1) c p (st \<noteq> odd k)" "pass_changed k ?s1" for k
    using free_running_pass_n [OF f1, of k] by blast+
  have f3: "free_running (snd (step N (e, s))) c p (st \<noteq> odd (nat N))"
    unfolding st
    using f2(1) [of "nat N"] by (intro free_running_propagate_signals) (simp add: free_running_printed)
  show "clock_shape s c p st"
    using fr by (auto simp: free_running_def clock_free_def clock_shape_def get_pin_def)
  show "snd (evaluation_pass s)" "free_running (fst (evaluation_pass s)) c p (\<not> st)"
    using free_running_pass [OF fr] by simp_all
  show "\<forall>k. pass_changed k ?s1" using f2(2) by blast
  show "\<forall>k. free_running (pass_n k ?s1) c p (st \<noteq> odd k)" using f2(1) by blast
  show "snd (step N (e, s)) =
           propagate_signals
             ((pass_n (nat N) ?s1)
                \<lparr>printed := printed (pass_n (nat N) ?s1) @ [ConvergenceWarning N]\<rparr>)"
    by (rule st)
  show "free_running (snd (step N (e, s))) c p (st \<noteq> odd (nat N))" by (rule f3)
qed

lemma clock_led_free: "free_running clock_led 0 0 False"
  by (simp add: free_running_def clock_free_def clock_led_def build_simps eval_defs)

text \<open>
  The freshly built clock and LED: with a bound of 3 the step runs three passes, prints the
  warning and leaves the clock on.
\<close>

theorem C10_free_running_clock_witness:
  "free_running clock_led 0 0 False
   \<and> clock_shape clock_led 0 0 False
   \<and> (\<exists>s'. evaluate 0 clock_led = Inr s' \<and> kind (comp_heap s' 0) = Clock True 0 1
            \<and> signal (pin_heap s' 0) = from_bool True)
   \<and> snd (evaluation_pass clock_led)
   \<and> free_running (snd (step 3 (SimulationEngine_init, clock_led))) 0 0 True
   \<and> snd (step 3 (SimulationEngine_init, clock_led)) =
           propagate_signals
             ((pass_n 3 (propagate_signals clock_led))
                \<lparr>printed := printed (pass_n 3 (propagate_signals clock_led))
                             @ [ConvergenceWarning 3]\<rparr>)"
proof -
  note t = C10_free_running_clock [of clock_led 0 0 False 3 SimulationEngine_init]
  have a: "nat (3::int) = 3" by simp
  have b: "(False \<noteq> odd (3::nat)) = True" by simp
  have c: "(\<not> False) = True" by simp
  show ?thesis using t clock_led_free unfolding a b c by blast
qed

lemma clock_driven_pass:
  "evaluation_pass (propagate_signals clock_driven) =
     (fst (evaluation_pass (propagate_signals clock_driven)), False)"
  "kind (comp_heap clock_driven 1) = Clock False 0 1"
  "map_of (components (circuit clock_driven)) ''clk'' = Some 1"
  "state (signal (pin_heap (propagate_signals clock_driven) 1)) = HIGH"
  "state (signal (pin_heap (fst (evaluation_pass (propagate_signals clock_driven))) 1)) = HIGH"
  "kind (comp_heap (fst (evaluation_pass (propagate_signals clock_driven))) 1) = Clock True 0 1"
  "printed (fst (evaluation_pass (propagate_signals clock_driven))) = []"
  by (simp_all add: pass_defs clock_driven_def build_simps eval_defs)

text \<open>
  C10 as stated fails when a wire copies another output onto the clock's output pin. In
  \<open>clock_driven\<close> the circuit holds a clock with frequency 1; the first propagation of a
  step copies the switch's HIGH onto the clock's output pin; the clock's evaluation then
  toggles its state to on and drives HIGH again, so the pin's state does not change, the
  pass is change-free, and the step (bound 100) ends after one pass without a warning.
\<close>

theorem C10_driven_clock_counterexample:
  "kind (comp_heap clock_driven 1) = Clock False 0 1
   \<and> map_of (components (circuit clock_driven)) ''clk'' = Some 1
   \<and> state (signal (pin_heap (propagate_signals clock_driven) 1)) = HIGH
   \<and> state (signal (pin_heap (fst (evaluation_pass (propagate_signals clock_driven))) 1)) = HIGH
   \<and> kind (comp_heap (fst (evaluation_pass (propagate_signals clock_driven))) 1) = Clock True 0 1
   \<and> \<not> snd (evaluation_pass (propagate_signals clock_driven))
   \<and> printed (snd (step 100 (SimulationEngine_init, clock_driven))) = []"
proof -
  have p: "\<not> snd (evaluation_pass (propagate_signals clock_driven))"
    by (subst clock_driven_pass(1)) simp
  have l: "evaluate_loop 100 0 (propagate_signals clock_driven) =
             (fst (evaluation_pass (propagate_signals clock_driven)), 1)"
    by (subst evaluate_loop.simps, subst clock_driven_pass(1)) simp
  have "printed (snd (step 100 (SimulationEngine_init, clock_driven))) = []"
    by (simp add: step_def evaluate_circuit_def l propagate_signals_printed
        clock_driven_pass(7))
  then show ?thesis using p clock_driven_pass by simp
qed

section \<open>The synthesizer on \<open>(A&B)\<close>\<close>

lemmas string_defs = re_split_def spaces_def prefix_len_def lstrip_def rstrip_def strip_def
  strip_chars_def startswith_def replace_def continuation_def

lemma parse_ab: "parse_dnf_terms ''(A&B)'' = [[(''A'', True), (''B'', True)]]"
  by (simp add: parse_dnf_terms_def parse_literal_def string_defs)

lemma parse_not_ab: "parse_dnf_terms ''(!A&B)'' = [[(''A'', False), (''B'', True)]]"
  by (simp add: parse_dnf_terms_def parse_literal_def string_defs)

lemma create_registered:
  "create ''switch'' lbl s = Some (construct [] (if lbl = [] then ''switch'' else lbl) (Switch False) s)"
  "create ''not'' lbl s = Some (construct [] (if lbl = [] then ''not'' else lbl) (NOTGate 1) s)"
  "create ''and'' lbl s = Some (construct [] (if lbl = [] then ''and'' else lbl) (ANDGate 2) s)"
  "create ''or'' lbl s = Some (construct [] (if lbl = [] then ''or'' else lbl) (ORGate 2) s)"
  "create ''led'' lbl s = Some (construct [] (if lbl = [] then ''led'' else lbl) (LED False) s)"
  by (simp_all add: create_def registry_def lower_def lower_char_def string_defs)

lemmas synth_defs = build_from_pdnf_def build_terms_def combine_terms_def finish_def
  create_output_led_def create_final_or_gate_def create_term_and_gate_def create_registered
  build_simps

lemma build_ok: "build_from_pdnf ''(A&B)'' [''A'', ''B''] World0 = Some (True, ab_built)"
  by (simp add: ab_built_def parse_ab synth_defs)

lemmas ab_defs = ab_on_def ab_built_def not_ab_built_def parse_ab parse_not_ab synth_defs

lemma ab_components:
  "map (\<lambda>kc. (fst kc, snd kc, label (comp_heap ab_built (snd kc)), kind (comp_heap ab_built (snd kc))))
      (components (circuit ab_built)) =
     [(''comp_0'', 0, ''A'', Switch False), (''comp_1'', 1, ''B'', Switch False),
      (''comp_2'', 2, ''NOT_A'', NOTGate 1), (''comp_3'', 3, ''NOT_B'', NOTGate 1),
      (''comp_4'', 4, ''AND1'', ANDGate 2), (''comp_5'', 5, ''Output'', LED False)]"
  by (simp add: ab_defs)

lemma ab_wires:
  "map (\<lambda>kw. (fst kw, Some (start_pin (wire_heap ab_built (snd kw))),
                       Some (end_pin (wire_heap ab_built (snd kw)))))
      (wires (circuit ab_built)) =
     [(''wire_0'', get_pin ab_built 0 ''out'', get_pin ab_built 2 ''in0''),
      (''wire_1'', get_pin ab_built 1 ''out'', get_pin ab_built 3 ''in0''),
      (''wire_2'', get_pin ab_built 0 ''out'', get_pin ab_built 4 ''in0''),
      (''wire_3'', get_pin ab_built 1 ''out'', get_pin ab_built 4 ''in1''),
      (''wire_4'', get_pin ab_built 4 ''out'', get_pin ab_built 5 ''in'')]"
  by (simp add: ab_defs)

lemma not_ab_ok: "build_from_pdnf ''(!A&B)'' [''A'', ''B''] World0 = Some (True, not_ab_built)"
  by (simp add: not_ab_built_def parse_not_ab synth_defs)

lemma not_ab_pins:
  "map (\<lambda>c. (label (comp_heap not_ab_built c), pins (comp_heap not_ab_built c))) [0, 1, 2, 3, 4, 5] =
     [(''A'', [(''out'', 0)]), (''B'', [(''out'', 1)]),
      (''NOT_A'', [(''in0'', 2), (''out'', 3)]), (''NOT_B'', [(''in0'', 4), (''out'', 5)]),
      (''AND1'', [(''in0'', 6), (''in1'', 7), (''out'', 8)]), (''Output'', [(''in'', 9)])]"
  by (simp add: ab_defs)

lemma not_ab_wires:
  "map (\<lambda>kw. (fst kw, start_pin (wire_heap not_ab_built (snd kw)),
                       end_pin (wire_heap not_ab_built (snd kw))))
      (wires (circuit not_ab_built)) =
     [(''wire_0'', 0, 2), (''wire_1'', 1, 4), (''wire_2'', 3, 6), (''wire_3'', 1, 7),
      (''wire_4'', 8, 9)]"
  by (simp add: ab_defs)

lemma ab_pass1:
  "pass_changed 0 (propagate_signals ab_on)"
  "\<not> pass_changed (Suc 0) (propagate_signals ab_on)"
  by (simp_all add: pass_changed_def pass_defs ab_defs eval_defs)

lemma loop_one_pass:
  assumes "2 \<le> N" and "\<not> pass_changed 0 s"
  shows "evaluate_loop N 0 s = (pass_n 1 s, 1)"
proof -
  obtain t ch where p: "evaluation_pass s = (t, ch)" by (cases "evaluation_pass s")
  then have "\<not> ch" using assms(2) by (simp add: pass_changed_def)
  then show ?thesis using assms(1) p by (simp add: evaluate_loop.simps [of N 0 s])
qed

lemma loop_two_passes:
  assumes "2 \<le> N" and "pass_changed 0 s" and "\<not> pass_changed (Suc 0) s"
  shows "evaluate_loop N 0 s = (pass_n 2 s, 2)"
proof -
  from evaluate_loop_passes [of N 0 s]
  obtain d where d: "evaluate_loop N 0 s = (pass_n d s, int d)"
    "\<forall>j. j + 1 < d \<longrightarrow> pass_changed j s"
    "int d < N \<longrightarrow> 0 < d \<and> \<not> pass_changed (d - 1) s"
    "int d \<le> N \<or> d = 0"
    by auto
  have "\<not> d > 2" using d(2) assms(3) by (auto simp: not_less dest!: spec [of _ 1])
  moreover have "d \<noteq> 0" "d \<noteq> 1" using d(3) assms(1,2) by auto
  ultimately have "d = 2" by arith
  then show ?thesis using d(1) by simp
qed

lemma loop_bound_one: "evaluate_loop 1 0 s = (pass_n 1 s, 1)"
  by (cases "evaluation_pass s")
    (simp add: evaluate_loop.simps [of 1 0 s] evaluate_loop.simps [of 1 1])

lemma ab_step1:
  assumes "3 \<le> N"
  shows "snd (step N (e, ab_on)) = propagate_signals (pass_n 2 (propagate_signals ab_on))"
  using assms loop_two_passes [OF _ ab_pass1, of N]
  by (simp add: step_def evaluate_circuit_def)

lemma ab_pass2:
  "\<not> pass_changed 0 (propagate_signals (propagate_signals (pass_n 2 (propagate_signals ab_on))))"
  by (simp add: numeral_2_eq_2 pass_changed_def pass_defs ab_defs eval_defs)

lemma ab_lit_pass:
  "kind (comp_heap (propagate_signals (pass_n 1 (propagate_signals
      (propagate_signals (pass_n 2 (propagate_signals ab_on)))))) 5) = LED True"
  by (simp add: numeral_2_eq_2 pass_defs ab_defs eval_defs)

lemma ab_lit_ge3:
  assumes "3 \<le> N"
  shows "kind (comp_heap (snd (step N (step N (e, ab_on)))) 5) = LED True"
proof -
  have "step N (e, ab_on) = (fst (step N (e, ab_on)), snd (step N (e, ab_on)))" by simp
  then have "snd (step N (step N (e, ab_on))) =
      propagate_signals (evaluate_circuit N (propagate_signals (snd (step N (e, ab_on)))))"
    by (simp add: step_def split: prod.splits)
  also have "\<dots> = propagate_signals (pass_n 1 (propagate_signals
      (propagate_signals (pass_n 2 (propagate_signals ab_on)))))"
    using assms loop_one_pass [OF _ ab_pass2, of N]
    by (simp add: ab_step1 evaluate_circuit_def)
  finally show ?thesis by (simp only: ab_lit_pass)
qed

lemma ab_lit_2: "kind (comp_heap (snd (step 2 (step 2 (e, ab_on)))) 5) = LED True"
  by (simp add: step_def evaluate_circuit_def evaluate_loop.simps pass_defs ab_defs eval_defs)

lemma ab_lit_1: "kind (comp_heap (snd (step 1 (step 1 (e, ab_on)))) 5) = LED True"
  by (simp add: step_def evaluate_circuit_def evaluate_loop.simps pass_defs ab_defs eval_defs)

lemma wire_literals_take:
  "wire_literals gate i lits input_switches not_gates s =
     wire_literals gate i (take (2 - i) lits) input_switches not_gates s"
proof (induction lits arbitrary: i s)
  case Nil
  show ?case by simp
next
  case (Cons lit lits)
  show ?case
  proof (cases "i \<ge> 2")
    case True
    then show ?thesis by simp
  next
    case False
    then have "2 - i = Suc (2 - (i + 1))" by arith
    then have t: "take (2 - i) (lit # lits) = lit # take (2 - (i + 1)) lits"
      by (simp only: take_Suc_Cons)
    show ?thesis
      unfolding t using False Cons.IH [of "i + 1"]
      by (simp split: option.splits)
  qed
qed

lemma ab_lit:
  assumes "1 \<le> N"
  shows "kind (comp_heap (snd (step N (step N (e, ab_on)))) 5) = LED True"
proof -
  consider "N = 1" | "N = 2" | "3 \<le> N" using assms by arith
  then show ?thesis
    by cases (simp_all only: ab_lit_1 ab_lit_2 ab_lit_ge3)
qed

text \<open>
  The AND gate of a term, constructed and added to the circuit: its address is the next
  free one, and its pins \<open>in0\<close>, \<open>in1\<close> and \<open>out\<close> are the next three pin objects.
\<close>

lemma and_gate_pins:
  "fst (construct [] (''AND'' @ str_nat (i + 1)) (ANDGate 2) s) = comp_next s"
  "get_pin (add_component (comp_next s) (snd (construct [] (''AND'' @ str_nat (i + 1)) (ANDGate 2) s)))
     (comp_next s) ''in0'' = Some (pin_next s)"
  "get_pin (add_component (comp_next s) (snd (construct [] (''AND'' @ str_nat (i + 1)) (ANDGate 2) s)))
     (comp_next s) ''in1'' = Some (pin_next s + 1)"
  "get_pin (add_component (comp_next s) (snd (construct [] (''AND'' @ str_nat (i + 1)) (ANDGate 2) s)))
     (comp_next s) ''out'' = Some (pin_next s + 2)"
  by (simp_all add: build_simps)

lemma get_pin_add_wire: "get_pin (add_wire w s) c nm = get_pin s c nm"
  by (simp add: add_wire_def attach_def get_pin_def Let_def)

lemma get_pin_new_wire: "get_pin (snd (new_wire wid a b s)) c nm = get_pin s c nm"
  by (simp add: new_wire_def get_pin_def)

lemma get_pin_wire_if_both: "get_pin (wire_if_both x y s) c nm = get_pin s c nm"
  by (cases x; cases y) (simp_all add: get_pin_add_wire get_pin_new_wire)

lemma wire_if_both_wire:
  "start_pin (wire_heap (wire_if_both (Some a) (Some b) s) (wire_next s)) = a"
  "end_pin (wire_heap (wire_if_both (Some a) (Some b) s) (wire_next s)) = b"
  "map_of (wires (circuit (wire_if_both (Some a) (Some b) s)))
     (''wire_'' @ str_nat (next_wire_id (circuit s))) = Some (wire_next s)"
  "wire_if_both None y s = s"
  "wire_if_both x None s = s"
  by (cases x; simp add: add_wire_def new_wire_def attach_def Let_def update_conv')+

lemma term_gate_general:
  "create_term_and_gate term input_switches not_gates i s =
     (case term of
        [] \<Rightarrow> Some (comp_next s, and_gate i s)
      | l1 # rest1 \<Rightarrow>
          (case map_of (if snd l1 then input_switches else not_gates) (fst l1) of
             None \<Rightarrow> None
           | Some c1 \<Rightarrow>
               (case rest1 of
                  [] \<Rightarrow> Some (comp_next s, wire_if_both (get_pin (and_gate i s) c1 ''out'')
                                            (Some (pin_next s)) (and_gate i s))
                | l2 # rest2 \<Rightarrow>
                    (case map_of (if snd l2 then input_switches else not_gates) (fst l2) of
                       None \<Rightarrow> None
                     | Some c2 \<Rightarrow>
                         Some (comp_next s,
                               wire_if_both (get_pin (and_gate i s) c2 ''out'') (Some (pin_next s + 1))
                                 (wire_if_both (get_pin (and_gate i s) c1 ''out'')
                                    (Some (pin_next s)) (and_gate i s)))))))"
proof -
  have stop: "wire_literals g 2 lits input_switches not_gates t = Some t" for g lits t
    by (cases lits) simp_all
  have two: "Suc (Suc 0) = 2" by simp
  show ?thesis
    unfolding and_gate_def create_term_and_gate_def create_registered
    using and_gate_pins [where i = i and s = s]
    by (simp add: get_pin_wire_if_both str_nat_less10 digit_char_def stop two
        del: One_nat_def split: list.splits option.splits)
qed
text \<open>
  C6. Synthesizing the PDNF string \<open>(A&B)\<close> with the variables \<open>A\<close>, \<open>B\<close> into a fresh circuit
  succeeds, and the circuit then holds exactly six components: the switches \<open>A\<close> and \<open>B\<close>,
  the NOT gates \<open>NOT_A\<close> and \<open>NOT_B\<close>, one AND gate and one LED; and exactly five wires: from
  each switch's output to the input of its NOT gate, from the two switches' outputs to the
  two inputs of the AND gate, and from the AND gate's output to the LED's input. With both
  switches set on, two calls of \<open>step()\<close> leave the LED lit, for every iteration bound of at
  least one.

  In general, for every term, every pair of dictionaries and every store, the method
  \<open>_create_term_and_gate\<close> constructs a new AND gate, adds it to the circuit and wires at
  most two literals to it: the first literal to the pin \<open>in0\<close> and the second to the pin
  \<open>in1\<close>, each from the pin \<open>out\<close> of the literal's source, which is the switch of the
  literal's variable for a positive literal and the NOT gate of the variable for a
  negative one; a variable missing from the dictionary raises, a source without a pin \<open>out\<close>
  gets no wire. A wire made by the guarded statement is a new wire object from the first
  pin to the second, stored in the circuit under the next generated id. Literals after the
  second are not looked at: the result is that for the first two literals. For \<open>(!A&B)\<close>
  the AND gate is wired from the NOT gate of \<open>A\<close> and from the switch of \<open>B\<close>.
\<close>

theorem C6_synthesis_and_gate:
  "build_from_pdnf ''(A&B)'' [''A'', ''B''] World0 = Some (True, ab_built)
   \<and> map (\<lambda>kc. (fst kc, snd kc, label (comp_heap ab_built (snd kc)),
                  kind (comp_heap ab_built (snd kc))))
        (components (circuit ab_built)) =
       [(''comp_0'', 0, ''A'', Switch False), (''comp_1'', 1, ''B'', Switch False),
        (''comp_2'', 2, ''NOT_A'', NOTGate 1), (''comp_3'', 3, ''NOT_B'', NOTGate 1),
        (''comp_4'', 4, ''AND1'', ANDGate 2), (''comp_5'', 5, ''Output'', LED False)]
   \<and> map (\<lambda>kw. (fst kw, Some (start_pin (wire_heap ab_built (snd kw))),
                         Some (end_pin (wire_heap ab_built (snd kw)))))
        (wires (circuit ab_built)) =
       [(''wire_0'', get_pin ab_built 0 ''out'', get_pin ab_built 2 ''in0''),
        (''wire_1'', get_pin ab_built 1 ''out'', get_pin ab_built 3 ''in0''),
        (''wire_2'', get_pin ab_built 0 ''out'', get_pin ab_built 4 ''in0''),
        (''wire_3'', get_pin ab_built 1 ''out'', get_pin ab_built 4 ''in1''),
        (''wire_4'', get_pin ab_built 4 ''out'', get_pin ab_built 5 ''in'')]
   \<and> (1 \<le> N \<longrightarrow> kind (comp_heap (snd (step N (step N (e, ab_on)))) 5) = LED True)
   \<and> create_term_and_gate term input_switches not_gates term_index s =
       (case term of
          [] \<Rightarrow> Some (comp_next s, and_gate term_index s)
        | l1 # rest1 \<Rightarrow>
            (case map_of (if snd l1 then input_switches else not_gates) (fst l1) of
               None \<Rightarrow> None
             | Some c1 \<Rightarrow>
                 (case rest1 of
                    [] \<Rightarrow>
                      Some (comp_next s,
                            wire_if_both (get_pin (and_gate term_index s) c1 ''out'')
                              (Some (pin_next s)) (and_gate term_index s))
                  | l2 # rest2 \<Rightarrow>
                      (case map_of (if snd l2 then input_switches else not_gates) (fst l2) of
                         None \<Rightarrow> None
                       | Some c2 \<Rightarrow>
                           Some (comp_next s,
                                 wire_if_both (get_pin (and_gate term_index s) c2 ''out'')
                                   (Some (pin_next s + 1))
                                   (wire_if_both (get_pin (and_gate term_index s) c1 ''out'')
                                      (Some (pin_next s)) (and_gate term_index s)))))))
   \<and> and_gate term_index s =
       add_component (comp_next s)
         (snd (construct [] (''AND'' @ str_nat (term_index + 1)) (ANDGate 2) s))
   \<and> get_pin (and_gate term_index s) (comp_next s) ''in0'' = Some (pin_next s)
   \<and> get_pin (and_gate term_index s) (comp_next s) ''in1'' = Some (pin_next s + 1)
   \<and> start_pin (wire_heap (wire_if_both (Some a) (Some b) s) (wire_next s)) = a
   \<and> end_pin (wire_heap (wire_if_both (Some a) (Some b) s) (wire_next s)) = b
   \<and> map_of (wires (circuit (wire_if_both (Some a) (Some b) s)))
        (''wire_'' @ str_nat (next_wire_id (circuit s))) = Some (wire_next s)
   \<and> wire_if_both None y s = s
   \<and> wire_if_both x None s = s
   \<and> create_term_and_gate term input_switches not_gates term_index s =
       create_term_and_gate (take 2 term) input_switches not_gates term_index s
   \<and> build_from_pdnf ''(!A&B)'' [''A'', ''B''] World0 = Some (True, not_ab_built)
   \<and> map (\<lambda>c. (label (comp_heap not_ab_built c), pins (comp_heap not_ab_built c)))
        [0, 1, 2, 3, 4, 5] =
       [(''A'', [(''out'', 0)]), (''B'', [(''out'', 1)]),
        (''NOT_A'', [(''in0'', 2), (''out'', 3)]), (''NOT_B'', [(''in0'', 4), (''out'', 5)]),
        (''AND1'', [(''in0'', 6), (''in1'', 7), (''out'', 8)]), (''Output'', [(''in'', 9)])]
   \<and> map (\<lambda>kw. (fst kw, start_pin (wire_heap not_ab_built (snd kw)),
                         end_pin (wire_heap not_ab_built (snd kw))))
        (wires (circuit not_ab_built)) =
       [(''wire_0'', 0, 2), (''wire_1'', 1, 4), (''wire_2'', 3, 6), (''wire_3'', 1, 7),
        (''wire_4'', 8, 9)]"
proof -
  have take2: "create_term_and_gate term input_switches not_gates term_index s =
       create_term_and_gate (take 2 term) input_switches not_gates term_index s"
    unfolding create_term_and_gate_def
    using wire_literals_take [of _ 0 "term" input_switches not_gates]
    by (simp split: option.splits)
  have pins: "get_pin (and_gate term_index s) (comp_next s) ''in0'' = Some (pin_next s)"
    "get_pin (and_gate term_index s) (comp_next s) ''in1'' = Some (pin_next s + 1)"
    unfolding and_gate_def by (rule and_gate_pins)+
  show ?thesis
    using build_ok ab_components ab_wires ab_lit [of N e]
      term_gate_general [of "term" input_switches not_gates term_index s]
      pins wire_if_both_wire take2 not_ab_ok not_ab_pins not_ab_wires
    by (intro conjI impI) (simp_all only: and_gate_def)
qed

theorem C6_synthesis_and_gate_witness:
  "kind (comp_heap (snd (step 100 (step 100 (SimulationEngine_init, ab_on)))) 5) = LED True
   \<and> create_term_and_gate [(''A'', False), (''B'', True), (''C'', True)] [(''A'', 0), (''B'', 1)]
        [(''A'', 2), (''B'', 3)] 0 ab_built =
      create_term_and_gate (take 2 [(''A'', False), (''B'', True), (''C'', True)])
        [(''A'', 0), (''B'', 1)] [(''A'', 2), (''B'', 3)] 0 ab_built"
proof -
  have "(1::int) \<le> 100" by simp
  with C6_synthesis_and_gate [of 100 SimulationEngine_init
      "[(''A'', False), (''B'', True), (''C'', True)]" "[(''A'', 0), (''B'', 1)]"
      "[(''A'', 2), (''B'', 3)]" 0 ab_built 0 0 None None]
  show ?thesis by blast
qed

section \<open>Evaluating boolean expressions\<close>

lemmas text_defs = string_defs contains.simps is_alpha_def is_digit_def is_word_def
  split_def sorted_set_def symbol_defs table_defs py_len_def modelled_def symbols_def

lemmas python_defs = py_eval_def parse.simps combine_def flush_def word_token_def
  py_keywords_def digits_value_def

lemmas evaluate_defs = evaluate_expression_def substituted_def python_text_def sub_var_def word_match_def
  next_is_word_def rewrite.simps match_here_def dict_zip_def

lemma normalize_and: "normalize ''A&B'' = ''A&B''"
  by (simp add: normalize_def text_defs)

lemma variables_and: "extract_variables ''A&B'' = [''A'', ''B'']"
  by (simp add: extract_variables_def text_defs)

lemma evaluate_and:
  "evaluate_expression ''A&B'' [(''A'', a), (''B'', b)] = Some (a \<and> b)"
  by (cases a; cases b) (simp_all add: evaluate_defs text_defs python_defs)

text \<open>The truth table that \<open>generate_truth_table\<close> builds for \<open>A&B\<close>.\<close>

lemma table_and: "generate_truth_table ''A&B'' = Some and_table"
  by (simp add: generate_truth_table_def normalize_and variables_and table_row_def
      evaluate_and dict_zip_def numeral_2_eq_2 and_table_def modelled_def)

text \<open>
  An expression written with the triple bar evaluates to the equivalence of its operands;
  the result of normalizing \<open>A<->B\<close> has no value: it reaches \<open>eval\<close> as \<open>True<\<close>, the arrow
  and \<open>True\<close>.
\<close>

lemma evaluate_equivalence:
  "evaluate_expression (normalize (''A'' @ EQUIV @ ''B'')) [(''A'', a), (''B'', b)] = Some (a = b)"
  "evaluate_expression (normalize ''A<->B'') [(''A'', a), (''B'', b)] = None"
  by (cases a; cases b; simp add: normalize_def evaluate_defs text_defs python_defs)+

section \<open>Normalization of the operator spellings\<close>

text \<open>
  C8. Normalization does not map every listed spelling onto its canonical token. The
  spellings \<open>->\<close> and \<open>=>\<close> of implication are replaced by the arrow before the spellings
  of equivalence are looked for, so that \<open><->\<close> and \<open><=>\<close> become \<open><\<close> followed by the arrow;
  \<open>=\<close>, of length one, is replaced by no loop, and \<open>~\<close> becomes \<open>!\<close>. The spellings \<open>eq\<close> and
  \<open>EQ\<close> are replaced by the triple bar, which stays as it is. The words \<open>or\<close>, \<open>OR\<close>, \<open>and\<close>
  and \<open>AND\<close> are replaced before the words that contain them, so that \<open>xor\<close>, \<open>nor\<close> and \<open>nand\<close>
  become \<open>x|\<close>, \<open>n|\<close> and \<open>n&\<close>.
\<close>

theorem C8_equivalence_spellings:
  "normalize ''A<->B'' = ''A<'' @ IMPL @ ''B''
   \<and> normalize ''A<=>B'' = ''A<'' @ IMPL @ ''B''
   \<and> normalize ''A=B'' = ''A=B''
   \<and> normalize ''A~B'' = ''A!B''
   \<and> normalize ''A eq B'' = ''A '' @ EQUIV @ '' B''
   \<and> normalize ''A EQ B'' = ''A '' @ EQUIV @ '' B''
   \<and> normalize (''A'' @ EQUIV @ ''B'') = ''A'' @ EQUIV @ ''B''
   \<and> normalize ''A xor B'' = ''A x| B''
   \<and> normalize ''A nor B'' = ''A n| B''
   \<and> normalize ''A nand B'' = ''A n& B''"
  by (simp add: normalize_def text_defs)

section \<open>The Zhegalkin polynomial\<close>

text \<open>
  C1. For the truth table of \<open>A&B\<close> the function returns \<open>0\<close>, not \<open>A&B\<close>: with two variables
  the triangle gets two rows after the outputs, so only three of the four coefficients
  exist, and the coefficient of \<open>A&B\<close> is the fourth. For the truth table of the function
  \<open>B\<close> over the variables \<open>A\<close>, \<open>B\<close> it returns \<open>A\<close>: coefficient 1 belongs to the row where
  only \<open>B\<close> is true, and bit 0 of the index selects the first variable.
\<close>

theorem C1_zhegalkin_and:
  "calculate_zhegalkin and_table = Some ''0''
   \<and> triangle [0, 0, 0, 1] 2 = [[0, 0, 0, 1], [0, 0, 1], [0, 1]]
   \<and> coefficients (triangle [0, 0, 0, 1] 2) = Some [0, 0, 0]
   \<and> calculate_zhegalkin b_table = Some ''A''"
  by (simp add: and_table_def b_table_def calculate_zhegalkin_def triangle_def coefficients_def
      add_monomial_def var_indices_def upt_conv_Cons numeral_2_eq_2)

section \<open>The normal forms\<close>

lemma fold_add_literal_None: "fold (add_literal pos row) vars None = None"
  by (induction vars) (simp_all add: add_literal_def)

lemma fold_add_literal:
  "fold (add_literal pos row) vars (Some acc) =
     (if list_all (\<lambda>var. map_of (inputs row) var \<noteq> None) vars
      then Some (acc @ map (\<lambda>var. if the (map_of (inputs row) var) = pos then var else ''!'' @ var)
                         vars)
      else None)"
proof (induction vars arbitrary: acc)
  case Nil
  show ?case by simp
next
  case (Cons var vars)
  show ?case
  proof (cases "map_of (inputs row) var")
    case None
    then have "add_literal pos row var (Some acc) = None" by (simp add: add_literal_def)
    then show ?thesis using None by (simp add: fold_add_literal_None)
  next
    case (Some v)
    then have "add_literal pos row var (Some acc) =
        Some (acc @ [if v = pos then var else ''!'' @ var])"
      by (simp add: add_literal_def)
    then show ?thesis using Some Cons [of "acc @ [if v = pos then var else ''!'' @ var]"]
      by simp
  qed
qed

lemma fold_add_term_None: "fold (add_term pos inner vars) rs None = None"
  by (induction rs) (simp_all add: add_term_def)

lemma fold_add_term:
  "fold (add_term pos inner vars) rs (Some acc) =
     (if defined_rows rs vars
      then Some (acc @ map (\<lambda>row. ''('' @ join inner
                   (map (\<lambda>var. if the (map_of (inputs row) var) = pos then var else ''!'' @ var)
                      vars) @ '')'') rs)
      else None)"
proof (induction rs arbitrary: acc)
  case Nil
  show ?case by (simp add: defined_rows_def)
next
  case (Cons row rs)
  show ?case
  proof (cases "list_all (\<lambda>var. map_of (inputs row) var \<noteq> None) vars")
    case False
    then have "add_term pos inner vars row (Some acc) = None"
      by (simp add: add_term_def fold_add_literal)
    then show ?thesis using False by (simp add: fold_add_term_None defined_rows_def)
  next
    case True
    then have "add_term pos inner vars row (Some acc) =
        Some (acc @ [''('' @ join inner
                   (map (\<lambda>var. if the (map_of (inputs row) var) = pos then var else ''!'' @ var)
                      vars) @ '')''])"
      by (simp add: add_term_def fold_add_literal)
    then show ?thesis
      using True Cons [of "acc @ [''('' @ join inner
                   (map (\<lambda>var. if the (map_of (inputs row) var) = pos then var else ''!'' @ var)
                      vars) @ '')'']"]
      by (simp add: defined_rows_def)
  qed
qed

text \<open>
  C7, as the code has it. The minterms are the rows whose output is true, in the order of
  the table. When one of them gives no value to some variable, \<open>calculate_pdnf\<close> raises
  \<open>KeyError\<close>. Otherwise it returns \<open>0\<close> when there is no minterm, and else the terms of the
  minterms joined by a bar between two spaces, the term of a row being, between
  parentheses, its literals joined by \<open>&\<close>, one for each variable of the table in order: the
  variable when the row makes it true, the variable after \<open>!\<close> when not. Dually
  \<open>calculate_pcnf\<close> takes the rows whose output is false, returns \<open>1\<close> when there is none, and
  else joins by \<open>&\<close> between two spaces the clauses in which the literals are joined by a
  bar, the variable standing after \<open>!\<close> when the row makes it true. For the truth table of
  \<open>A&B\<close> the results are \<open>(A&B)\<close> and \<open>(A|B) & (A|!B) & (!A|B)\<close>.
\<close>

theorem C7_normal_forms:
  "calculate_pdnf tt =
     (if defined_rows (get_minterms tt) (variables tt) then
        Some (if get_minterms tt = [] then ''0''
              else join '' | ''
                     (map (\<lambda>row. ''('' @ join ''&''
                             (map (\<lambda>var. if the (map_of (inputs row) var) then var else ''!'' @ var)
                                (variables tt)) @ '')'')
                        (get_minterms tt)))
      else None)
   \<and> calculate_pcnf tt =
     (if defined_rows (get_maxterms tt) (variables tt) then
        Some (if get_maxterms tt = [] then ''1''
              else join '' & ''
                     (map (\<lambda>row. ''('' @ join ''|''
                             (map (\<lambda>var. if the (map_of (inputs row) var) then ''!'' @ var else var)
                                (variables tt)) @ '')'')
                        (get_maxterms tt)))
      else None)
   \<and> get_minterms tt = filter (\<lambda>row. output row) (rows tt)
   \<and> get_maxterms tt = filter (\<lambda>row. \<not> output row) (rows tt)
   \<and> calculate_pdnf and_table = Some ''(A&B)''
   \<and> calculate_pcnf and_table = Some ''(A|B) & (A|!B) & (!A|B)''"
proof -
  have lit: "(if \<not> b then x else y) = (if b then y else x)" for b and x y :: string
    by simp
  have p: "calculate_pdnf tt =
     (if defined_rows (get_minterms tt) (variables tt) then
        Some (if get_minterms tt = [] then ''0''
              else join '' | ''
                     (map (\<lambda>row. ''('' @ join ''&''
                             (map (\<lambda>var. if the (map_of (inputs row) var) then var else ''!'' @ var)
                                (variables tt)) @ '')'')
                        (get_minterms tt)))
      else None)"
    by (simp add: calculate_pdnf_def fold_add_term defined_rows_def)
  have c: "calculate_pcnf tt =
     (if defined_rows (get_maxterms tt) (variables tt) then
        Some (if get_maxterms tt = [] then ''1''
              else join '' & ''
                     (map (\<lambda>row. ''('' @ join ''|''
                             (map (\<lambda>var. if the (map_of (inputs row) var) then ''!'' @ var else var)
                                (variables tt)) @ '')'')
                        (get_maxterms tt)))
      else None)"
    by (simp add: calculate_pcnf_def fold_add_term defined_rows_def lit)
  have a: "calculate_pdnf and_table = Some ''(A&B)''"
    "calculate_pcnf and_table = Some ''(A|B) & (A|!B) & (!A|B)''"
    by (simp_all add: calculate_pdnf_def calculate_pcnf_def get_minterms_def get_maxterms_def
        and_table_def add_term_def add_literal_def)
  show ?thesis
    using p c a by (simp add: get_minterms_def get_maxterms_def)
qed

text \<open>The table of the function \<open>B\<close>.\<close>

theorem C7_normal_forms_witness:
  "calculate_pdnf b_table = Some ''(!A&B) | (A&B)''
   \<and> calculate_pcnf b_table = Some ''(A|B) & (!A|B)''"
proof -
  have d: "defined_rows (get_minterms b_table) (variables b_table)"
    "defined_rows (get_maxterms b_table) (variables b_table)"
    by (auto simp: defined_rows_def get_minterms_def get_maxterms_def b_table_def)
  have m: "get_minterms b_table =
      [\<lparr>inputs = [(''A'', False), (''B'', True)], output = True\<rparr>,
       \<lparr>inputs = [(''A'', True), (''B'', True)], output = True\<rparr>]"
    "get_maxterms b_table =
      [\<lparr>inputs = [(''A'', False), (''B'', False)], output = False\<rparr>,
       \<lparr>inputs = [(''A'', True), (''B'', False)], output = False\<rparr>]"
    "variables b_table = [''A'', ''B'']"
    by (simp_all add: get_minterms_def get_maxterms_def b_table_def)
  note t = C7_normal_forms [of b_table]
  note p = t [THEN conjunct1]
  note c = t [THEN conjunct2, THEN conjunct1]
  show ?thesis
    unfolding p c using d by (simp add: m)
qed

text \<open>
  C7 as stated fails for its own example: the clauses of the PCNF of \<open>A&B\<close> are joined with
  spaces around the \<open>&\<close>.
\<close>

theorem C7_pcnf_counterexample:
  "calculate_pcnf and_table \<noteq> Some ''(A|B)&(A|!B)&(!A|B)''"
  by (simp add: calculate_pcnf_def get_maxterms_def and_table_def add_term_def add_literal_def)

end
